theory Spec2Isabelle
  imports Main "HOL-Library.Word"
begin

section \<open>Data of the value-log garbage collector\<close>

text \<open>
  The development embeds \<^verbatim>\<open>db/blob_vlog_gc.cc\<close> (with the members of
  \<^verbatim>\<open>ValueLogImpl\<close> it uses, from \<^verbatim>\<open>db/blob_vlog_impl.h\<close>). C++ member names
  end in an underscore; Isabelle reserves such names, so \<^verbatim>\<open>gc_pointer_\<close> is
  \<open>gc_pointer\<close> here, and so on. A few names are taken in HOL: \<^verbatim>\<open>Collect\<close> is
  \<open>Collect_gc\<close>, the member \<^verbatim>\<open>rewrites\<close> is \<open>rewrites_gc\<close>, the \<^verbatim>\<open>size_\<close> of a
  handle is \<open>size_h\<close>, and the members \<^verbatim>\<open>key_\<close> and \<^verbatim>\<open>handle_\<close> of the callback
  are \<open>key_cb\<close> and \<open>handle_cb\<close>.
\<close>

subsection \<open>Status\<close>

text \<open>
  \<^verbatim>\<open>leveldb::Status\<close>, by its code. The message strings never decide a branch and are
  left out.
\<close>

datatype status = OK | NotFound | Corruption | NotSupported | InvalidArgument | IOError | NonFatal

definition ok :: "status \<Rightarrow> bool" where
  "ok s = (s = OK)"

definition IsNotFound :: "status \<Rightarrow> bool" where
  "IsNotFound s = (s = NotFound)"

definition IsNonFatal :: "status \<Rightarrow> bool" where
  "IsNonFatal s = (s = NonFatal)"

subsection \<open>Handles, batches, files\<close>

datatype ValueType = kTypeDeletion | kTypeValue | kTypeValueHandle

text \<open>\<^verbatim>\<open>ValueHandle\<close>: the members \<^verbatim>\<open>table_\<close> (file number), \<^verbatim>\<open>offset_\<close>, \<^verbatim>\<open>size_\<close>.\<close>

record ValueHandle =
  table :: "64 word"
  offset :: "32 word"
  size_h :: "32 word"

text \<open>A \<^verbatim>\<open>WriteBatch\<close> is its list of tagged puts.\<close>

type_synonym WriteBatch = "(ValueType \<times> string \<times> string) list"

record ValueLogGCWriteCallback =
  key_cb :: string
  handle_cb :: ValueHandle

record VLogFileMeta =
  meta_number :: "64 word"
  file_size :: nat

record BlobVersionEdit =
  added :: "VLogFileMeta list"
  deleted :: "(64 word \<times> 64 word) list"

record GarbageCollection =
  number :: "64 word"
  value_batch :: "(string \<times> string) list"
  rewrites_gc :: "(WriteBatch \<times> ValueLogGCWriteCallback) list"
  total_size :: "32 word"
  total_entries :: "32 word"
  discard_size :: "32 word"
  discard_entries :: "32 word"
  obsolete_sequence :: "64 word"

text \<open>The constructor \<^verbatim>\<open>GarbageCollection()\<close> followed by \<^verbatim>\<open>gc->number = number\<close>.\<close>

definition GarbageCollection_new :: "64 word \<Rightarrow> GarbageCollection" where
  "GarbageCollection_new n =
     \<lparr>number = n, value_batch = [], rewrites_gc = [], total_size = 0, total_entries = 0,
      discard_size = 0, discard_entries = 0, obsolete_sequence = 0\<rparr>"

subsection \<open>The LSM\<close>

text \<open>
  What a point read of one key answers: no entry, an entry with its tag and bytes, or a
  failed read (of corrupt data, or of a file that cannot be read).
\<close>

datatype lookup = Absent | Present ValueType string | Corrupt | Unreadable

record DBImpl =
  entries :: "string \<Rightarrow> lookup"
  last_sequence :: "64 word"

text \<open>
  Modelled from the spec: \<^verbatim>\<open>DBImpl::Get(options, key, &value, &type)\<close> is not in the
  sources at hand. A point read returns the bytes and the value-type tag; a deleted or
  missing key is NotFound. The two output variables keep what they held when the read
  does not succeed.
\<close>

definition DBImpl_Get :: "DBImpl \<Rightarrow> string \<Rightarrow> string \<Rightarrow> ValueType \<Rightarrow> status \<times> string \<times> ValueType" where
  "DBImpl_Get d key value vt =
     (case entries d key of
        Absent \<Rightarrow> (NotFound, value, vt)
      | Present t v \<Rightarrow> if t = kTypeDeletion then (NotFound, value, vt) else (OK, v, t)
      | Corrupt \<Rightarrow> (Corruption, value, vt)
      | Unreadable \<Rightarrow> (IOError, value, vt))"

text \<open>
  Modelled from the spec: \<^verbatim>\<open>DB::Get(options, key, &value)\<close>, the same read without
  the tag: the bytes stored for the key, whatever their tag.
\<close>

definition DB_Get :: "DBImpl \<Rightarrow> string \<Rightarrow> string \<Rightarrow> status \<times> string" where
  "DB_Get d key value =
     (case entries d key of
        Absent \<Rightarrow> (NotFound, value)
      | Present t v \<Rightarrow> if t = kTypeDeletion then (NotFound, value) else (OK, v)
      | Corrupt \<Rightarrow> (Corruption, value)
      | Unreadable \<Rightarrow> (IOError, value))"

text \<open>
  Modelled from the spec: a committed batch is applied put by put, each put taking the
  next sequence number and shadowing the older entry of its key.
\<close>

fun apply_batch ::"WriteBatch \<Rightarrow> DBImpl \<Rightarrow> DBImpl" where
  "apply_batch [] d = d"
| "apply_batch ((t, key, value) # b) d =
     apply_batch b (d\<lparr>entries := (entries d)(key := Present t value),
                      last_sequence := last_sequence d + 1\<rparr>)"

text \<open>
  Modelled from the spec: \<^verbatim>\<open>DBImpl::Write(options, batch, callback)\<close> is not in the
  sources at hand. The callback runs under the commit lock; when it returns a status
  other than OK the batch is dropped silently (test \<^verbatim>\<open>DBIMPL_TEST.WriteCallback\<close>
  expects OK from such a write and the key absent afterwards). \<open>io\<close> is the status
  of the commit itself.
\<close>

definition DBImpl_Write :: "status \<Rightarrow> DBImpl \<Rightarrow> WriteBatch \<Rightarrow> (DBImpl \<Rightarrow> status) \<Rightarrow> status \<times> DBImpl" where
  "DBImpl_Write io d batch callback =
     (if \<not> ok (callback d) then (OK, d)
      else if \<not> ok io then (io, d)
      else (OK, apply_batch batch d))"

text \<open>
  Modelled from the spec: \<^verbatim>\<open>DBImpl::LatestSequence()\<close>, the sequence number of the
  last committed put.
\<close>

definition LatestSequence ::"DBImpl \<Rightarrow> 64 word" where
  "LatestSequence d = last_sequence d"

subsection \<open>What the collector does to the outside, in order\<close>

datatype event =
    EvNewFile "64 word"
  | EvAddBatch "64 word" "(string \<times> string \<times> ValueHandle) list"
  | EvFileSync "64 word"
  | EvBuilderFinish "64 word"
  | EvFileClose "64 word"
  | EvRoFilesEmplace "64 word"
  | EvDBWrite WriteBatch
  | EvDBSync
  | EvLogAndApply BlobVersionEdit
  | EvSchedule

subsection \<open>Code and environment outside the sources at hand\<close>

text \<open>
  The answers of everything \<^verbatim>\<open>blob_vlog_gc.cc\<close> calls but does not define, taken as
  parameters: the handle codec of \<^verbatim>\<open>table/format.h\<close> (\<open>DecodeFrom bytes\<close> is the
  handle an object holds after \<^verbatim>\<open>DecodeFrom(&bytes)\<close>, taken to be fixed by the bytes;
  \<open>EncodeTo h dst\<close> is the string \<open>dst\<close> after \<^verbatim>\<open>h.EncodeTo(&dst)\<close>), the
  default-constructed handle, the value an
  uninitialised \<^verbatim>\<open>ValueType\<close> local holds, the statuses of file creation, of the
  \<^verbatim>\<open>Sync()\<close> of a vlog file, of LSM commit, LSM sync and manifest append, and the
  three test sync points (what a callback
  installed at \<^verbatim>\<open>GC.AfterCollect\<close> writes to the LSM; whether the two
  \<^verbatim>\<open>TEST_SYNC_POINT_MAY_RETURN\<close> hooks ask to return).
\<close>

record ext =
  DecodeFrom :: "string \<Rightarrow> ValueHandle"
  EncodeTo :: "ValueHandle \<Rightarrow> string \<Rightarrow> string"
  ValueHandle0 :: ValueHandle
  valueType0 :: ValueType
  NewAppendableRandomAccessFile :: "64 word \<Rightarrow> status"
  FileSync_io :: "64 word \<Rightarrow> status"
  Write_io :: "WriteBatch \<Rightarrow> status"
  Sync_io :: status
  LogAndApply_io :: "BlobVersionEdit \<Rightarrow> status"
  SP_AfterCollect :: "DBImpl \<Rightarrow> DBImpl"
  SP_AfterValueRewrite :: bool
  SP_AfterLSMRewrite :: bool

subsection \<open>The value log\<close>

text \<open>
  Modelled from the spec: the three options of the collector; their declaration is not
  in the sources at hand. The thresholds are percentages, given as the numbers the
  comparison with the unsigned percentage sees; the interval is a number of seconds,
  compared as an \<^verbatim>\<open>int\<close> with the count of the duration.
\<close>

record Options =
  blob_gc_size_discard_threshold :: nat
  blob_gc_num_discard_threshold :: nat
  blob_gc_interval :: int

text \<open>
  The members of \<^verbatim>\<open>ValueLogImpl\<close> the collector reads or writes. The two
  \<^verbatim>\<open>std::map\<close>s are association lists (a key occurs once), \<^verbatim>\<open>pending_outputs_\<close> is
  a set. \<open>vlog_files\<close> gives the records of every vlog file an iterator can be opened
  on, \<open>trace\<close> the calls made to the outside so far, oldest first.

  Modelled from the spec: \<open>synced\<close>, the state of the disk. A \<^verbatim>\<open>Sync()\<close> of a file
  that returns OK makes the bytes appended to it durable; \<open>synced vl n\<close> is the number of
  bytes of file \<open>n\<close>, from its start, that are durable.
\<close>

record ValueLogImpl =
  options :: Options
  db :: DBImpl
  vlog_file_number :: "64 word"
  shutdown :: bool
  vlog_files :: "64 word \<Rightarrow> (string \<times> string) list option"
  synced :: "64 word \<Rightarrow> nat"
  ro_files :: "(64 word \<times> VLogFileMeta) list"
  pending_outputs :: "64 word set"
  obsolete_files :: "(64 word \<times> 64 word) list"
  gc_pointer :: "64 word"
  manual_gc :: bool
  manual_gc_number :: "64 word"
  bg_garbage_collection :: bool
  gc_last_run :: int
  bg_error :: status
  trace :: "event list"

definition CurrentFileNumber :: "ValueLogImpl \<Rightarrow> 64 word" where
  "CurrentFileNumber vl = vlog_file_number vl"

text \<open>\<^verbatim>\<open>std::map::lower_bound\<close>: the least key not less than \<open>n\<close>, if there is one.\<close>

fun lower_bound :: "64 word \<Rightarrow> (64 word \<times> 'v) list \<Rightarrow> 64 word option" where
  "lower_bound n [] = None"
| "lower_bound n ((k, v) # xs) =
     (case lower_bound n xs of
        None \<Rightarrow> if n \<le> k then Some k else None
      | Some k' \<Rightarrow> if n \<le> k \<and> k < k' then Some k else Some k')"

text \<open>\<^verbatim>\<open>std::map::emplace\<close>: a key already present keeps its value.\<close>

definition emplace :: "'k \<Rightarrow> 'v \<Rightarrow> ('k \<times> 'v) list \<Rightarrow> ('k \<times> 'v) list" where
  "emplace k v xs = (if map_of xs k = None then xs @ [(k, v)] else xs)"

text \<open>
  Modelled from the spec: the size a handle carries for its record. The builder is not
  in the sources at hand; by \<^verbatim>\<open>SizeOf\<close> of \<^verbatim>\<open>value_log_test.cc\<close> it is the two
  varint lengths, the key and the value (\<^verbatim>\<open>k01\<close>, \<^verbatim>\<open>value01\<close> give 12), and the
  next record starts that many bytes further.
\<close>

fun varint_length :: "nat \<Rightarrow> nat" where
  "varint_length n = (if n < 128 then 1 else 1 + varint_length (n div 128))"

definition record_size :: "string \<Rightarrow> string \<Rightarrow> nat" where
  "record_size key value =
     varint_length (length key) + varint_length (length value) + length key + length value"

text \<open>
  Modelled from the spec: \<^verbatim>\<open>ValueBatch::Finalize(number, offset)\<close> makes the handles of
  a batch absolute; the iterator of a vlog file reports the same handles for the records
  of the file.
\<close>

fun Finalize :: "64 word \<Rightarrow> 32 word \<Rightarrow> (string \<times> string) list \<Rightarrow> (string \<times> string \<times> ValueHandle) list" where
  "Finalize n off [] = []"
| "Finalize n off ((key, value) # b) =
     (key, value, \<lparr>table = n, offset = off, size_h = of_nat (record_size key value)\<rparr>)
       # Finalize n (off + of_nat (record_size key value)) b"

text \<open>
  Modelled from the spec: \<^verbatim>\<open>VLogBuilder::FileSize()\<close>, a \<^verbatim>\<open>uint32_t\<close>: the bytes of
  the records added to the file.
\<close>

definition FileSize ::"(string \<times> string \<times> ValueHandle) list \<Rightarrow> nat" where
  "FileSize recs = unat (foldl (\<lambda>acc (key, value, h). acc + size_h h) (0 :: 32 word) recs)"

text \<open>
  Modelled from the spec: \<^verbatim>\<open>NewVLogFileIterator(options, number)\<close>; no iterator
  (\<^verbatim>\<open>nullptr\<close>) when the file cannot be opened.
\<close>

definition NewVLogFileIterator :: "ValueLogImpl \<Rightarrow> 64 word \<Rightarrow> (string \<times> string \<times> ValueHandle) list option" where
  "NewVLogFileIterator vl n = map_option (Finalize n 0) (vlog_files vl n)"

text \<open>
  Modelled from the spec: \<^verbatim>\<open>LogAndApply(edit)\<close> appends the edit to the manifest and,
  when that succeeds, merges the added files into the live files and the deleted ones
  into the obsolete files.
\<close>

definition LogAndApply :: "ext \<Rightarrow> ValueLogImpl \<Rightarrow> BlobVersionEdit \<Rightarrow> status \<times> ValueLogImpl" where
  "LogAndApply x vl edit =
     (let vl1 = vl\<lparr>trace := trace vl @ [EvLogAndApply edit]\<rparr>
      in if \<not> ok (LogAndApply_io x edit) then (LogAndApply_io x edit, vl1)
         else (OK, vl1\<lparr>ro_files := foldl (\<lambda>m f. emplace (meta_number f) f m) (ro_files vl1) (added edit),
                      obsolete_files := foldl (\<lambda>m (n, sq). emplace n sq m) (obsolete_files vl1) (deleted edit)\<rparr>))"

section \<open>The commit callback of a handle rewrite\<close>

text \<open>\<^verbatim>\<open>ValueLogGCWriteCallback::Callback(DB* db)\<close>.\<close>

definition Callback :: "ext \<Rightarrow> ValueLogGCWriteCallback \<Rightarrow> DBImpl \<Rightarrow> status" where
  "Callback x cb d =
     (let (s, value) = DB_Get d (key_cb cb) []
      in if \<not> ok s then s
         else
           let current = DecodeFrom x value
           in if current \<noteq> handle_cb cb then InvalidArgument else OK)"

section \<open>Scheduling\<close>

text \<open>
  \<^verbatim>\<open>std::chrono::duration<int> duration = duration_cast<seconds>(now - gc_last_run_)\<close>
  followed by \<^verbatim>\<open>duration.count()\<close>: the seconds between the two time points, stored in
  an \<^verbatim>\<open>int\<close> of 32 bits, so the count is the difference wrapped into
  \<open>-2^31 .. 2^31 - 1\<close>. Time points are given in whole seconds.
\<close>

definition duration_count :: "int \<Rightarrow> int \<Rightarrow> int" where
  "duration_count now t0 = sint (word_of_int (now - t0) :: 32 word)"

text \<open>\<^verbatim>\<open>ValueLogImpl::MaybeScheduleGC\<close>; \<open>now\<close> is the clock, in seconds.\<close>

definition MaybeScheduleGC :: "int \<Rightarrow> ValueLogImpl \<Rightarrow> ValueLogImpl" where
  "MaybeScheduleGC now vl =
     (if bg_garbage_collection vl then vl
      else if shutdown vl then vl
      else if \<not> ok (bg_error vl) \<and> \<not> IsNonFatal (bg_error vl) then vl
      else
        let duration = duration_count now (gc_last_run vl)
        in if manual_gc vl \<or> duration > blob_gc_interval (options vl)
           then vl\<lparr>bg_garbage_collection := True, trace := trace vl @ [EvSchedule]\<rparr>
           else vl)"

definition RecordBGError :: "status \<Rightarrow> ValueLogImpl \<Rightarrow> ValueLogImpl" where
  "RecordBGError s vl = vl\<lparr>bg_error := s\<rparr>"

definition ManualGC :: "int \<Rightarrow> 64 word \<Rightarrow> ValueLogImpl \<Rightarrow> ValueLogImpl" where
  "ManualGC now n vl = MaybeScheduleGC now (vl\<lparr>manual_gc := True, manual_gc_number := n\<rparr>)"

section \<open>Picking a file\<close>

text \<open>
  The loop of \<^verbatim>\<open>ValueLogImpl::PickGC\<close>. \<^verbatim>\<open>it->first + 1\<close> wraps at \<open>2^64\<close>, after which
  the loop may start over and never end; \<open>None\<close> is the loop that does not end.
\<close>

partial_function (option) PickGC_loop ::
  "(64 word \<times> VLogFileMeta) list \<Rightarrow> (64 word \<times> 64 word) list \<Rightarrow> 64 word \<Rightarrow> 64 word option option" where
  "PickGC_loop ro obs n =
     (case lower_bound n ro of
        None \<Rightarrow> Some None
      | Some k \<Rightarrow> if map_of obs k = None then Some (Some k) else PickGC_loop ro obs (k + 1))"

definition PickGC :: "ValueLogImpl \<Rightarrow> 64 word \<Rightarrow> GarbageCollection option option" where
  "PickGC vl n = map_option (map_option GarbageCollection_new) (PickGC_loop (ro_files vl) (obsolete_files vl) n)"

section \<open>Collect\<close>

text \<open>
  The loop of \<^verbatim>\<open>ValueLogImpl::Collect\<close> over the records the iterator yields, each with
  the handle \<^verbatim>\<open>GetValueHandle\<close> reports. The locals \<^verbatim>\<open>s\<close>, \<^verbatim>\<open>handle_encoding\<close>,
  \<^verbatim>\<open>valueType\<close> and \<^verbatim>\<open>handle\<close> live across iterations.
\<close>

fun Collect_loop :: "ext \<Rightarrow> DBImpl \<Rightarrow> (string \<times> string \<times> ValueHandle) list \<Rightarrow>
    status \<Rightarrow> string \<Rightarrow> ValueType \<Rightarrow> ValueHandle \<Rightarrow> GarbageCollection \<Rightarrow> status \<times> GarbageCollection" where
  "Collect_loop x d [] s handle_encoding valueType handle gc = (s, gc)"
| "Collect_loop x d ((key, value, current) # rest) s handle_encoding valueType handle gc =
     (case DBImpl_Get d key handle_encoding valueType of
        (s', handle_encoding', valueType') \<Rightarrow>
          if \<not> ok s' \<and> \<not> IsNotFound s' then (IOError, gc)
          else
            let gc1 = gc\<lparr>total_entries := total_entries gc + 1,
                         total_size := total_size gc + size_h current\<rparr>;
                handle' = (if valueType' = kTypeValueHandle
                           then DecodeFrom x handle_encoding' else handle)
            in if IsNotFound s' \<or> valueType' \<noteq> kTypeValueHandle \<or> handle' \<noteq> current
               then Collect_loop x d rest s' handle_encoding' valueType' handle'
                      (gc1\<lparr>discard_entries := discard_entries gc1 + 1,
                           discard_size := discard_size gc1 + size_h current\<rparr>)
               else Collect_loop x d rest s' handle_encoding' valueType' handle'
                      (gc1\<lparr>value_batch := value_batch gc1 @ [(key, value)],
                           rewrites_gc := rewrites_gc gc1 @ [([], \<lparr>key_cb = key, handle_cb = handle'\<rparr>)]\<rparr>))"

definition Collect_gc :: "ext \<Rightarrow> ValueLogImpl \<Rightarrow> GarbageCollection \<Rightarrow> status \<times> GarbageCollection" where
  "Collect_gc x vl gc =
     (if number gc \<ge> CurrentFileNumber vl \<or> number gc = 0 then (NonFatal, gc)
      else case NewVLogFileIterator vl (number gc) of
             None \<Rightarrow> (NonFatal, gc)
           | Some recs \<Rightarrow> Collect_loop x (db vl) recs OK [] (valueType0 x) (ValueHandle0 x) gc)"

section \<open>Rewrite\<close>

text \<open>
  \<^verbatim>\<open>ValueBatch::Iterate\<close> driving \<^verbatim>\<open>RewriteLSMHandler::operator()\<close>: the handler is
  called on each record of the finalized batch until it returns false. Its members are
  the arguments \<open>iter\<close> (what is left of \<^verbatim>\<open>gc->rewrites\<close>), \<open>handle_encoding\<close>,
  \<open>s\<close>; the result is \<^verbatim>\<open>handler.s\<close> with the LSM and the trace. \<open>None\<close>: the handler
  dereferences the end of \<^verbatim>\<open>gc->rewrites\<close>.
\<close>

fun Iterate :: "ext \<Rightarrow> bool \<Rightarrow> (string \<times> string \<times> ValueHandle) list \<Rightarrow>
    (WriteBatch \<times> ValueLogGCWriteCallback) list \<Rightarrow> string \<Rightarrow> status \<Rightarrow> DBImpl \<Rightarrow> event list \<Rightarrow>
    (status \<times> DBImpl \<times> event list) option" where
  "Iterate x sd [] iter handle_encoding s d tr = Some (s, d, tr)"
| "Iterate x sd ((key, value, handle) # recs) iter handle_encoding s d tr =
     (if sd then Some (IOError, d, tr)
      else case iter of
             [] \<Rightarrow> None
           | (wb, cb) # iter' \<Rightarrow>
               (let handle_encoding' = EncodeTo x handle handle_encoding;
                    wb' = wb @ [(kTypeValueHandle, key, handle_encoding')]
                in case DBImpl_Write (Write_io x wb') d wb' (Callback x cb) of
                     (ws, d') \<Rightarrow>
                       if \<not> ok ws then Some (IOError, d', tr @ [EvDBWrite wb'])
                       else if iter' = [] then Some (ws, d', tr @ [EvDBWrite wb'])
                       else Iterate x sd recs iter' handle_encoding' ws d' (tr @ [EvDBWrite wb'])))"

text \<open>
  The integer percentage \<^verbatim>\<open>discard * 100 / total\<close> on \<^verbatim>\<open>uint32_t\<close>: the product wraps
  at \<open>2^32\<close>; a zero divisor is undefined behaviour (\<open>None\<close>).
\<close>

definition discard_ratio :: "32 word \<Rightarrow> 32 word \<Rightarrow> 32 word option" where
  "discard_ratio discard tot = (if tot = 0 then None else Some (discard * 100 div tot))"

text \<open>Steps 2 and 3 of \<^verbatim>\<open>ValueLogImpl::Rewrite\<close>: the handles in the LSM, then the edit.\<close>

definition Rewrite_LSM :: "ext \<Rightarrow> ValueLogImpl \<Rightarrow> GarbageCollection \<Rightarrow> VLogFileMeta \<Rightarrow>
    (string \<times> string \<times> ValueHandle) list \<Rightarrow> (status \<times> ValueLogImpl) option" where
  "Rewrite_LSM x vl gc f recs =
     (case Iterate x (shutdown vl) recs (rewrites_gc gc) [] OK (db vl) (trace vl) of
        None \<Rightarrow> None
      | Some (hs, d, tr) \<Rightarrow>
          let vl1 = vl\<lparr>db := d, trace := tr\<rparr>
          in if \<not> ok hs then Some (IOError, vl1)
             else
               let s = Sync_io x;
                   vl2 = vl1\<lparr>trace := tr @ [EvDBSync]\<rparr>
               in if \<not> ok s then Some (s, vl2)
                  else if SP_AfterLSMRewrite x then Some (s, vl2)
                  else Some (LogAndApply x vl2
                         \<lparr>added = [f], deleted = [(number gc, LatestSequence d)]\<rparr>))"

text \<open>
  \<^verbatim>\<open>ValueLogImpl::Rewrite\<close>. The two log lines at its head evaluate both percentages
  before anything else. \<open>None\<close>: undefined behaviour. The statuses that
  \<^verbatim>\<open>file->Sync()\<close>, \<^verbatim>\<open>builder->Finish()\<close> and \<^verbatim>\<open>file->Close()\<close> return are dropped
  by the code: no branch depends on them; the status of the sync decides only what is
  durable afterwards.
\<close>

definition Rewrite :: "ext \<Rightarrow> ValueLogImpl \<Rightarrow> GarbageCollection \<Rightarrow> (status \<times> ValueLogImpl) option" where
  "Rewrite x vl gc =
     (case discard_ratio (discard_size gc) (total_size gc) of
        None \<Rightarrow> None
      | Some size_ratio \<Rightarrow>
     (case discard_ratio (discard_entries gc) (total_entries gc) of
        None \<Rightarrow> None
      | Some num_ratio \<Rightarrow>
          if unat size_ratio < blob_gc_size_discard_threshold (options vl) \<and>
             unat num_ratio < blob_gc_num_discard_threshold (options vl)
          then Some (NonFatal, vl)
          else if discard_entries gc = total_entries gc
          then Some (LogAndApply x vl
                 \<lparr>added = [], deleted = [(number gc, LatestSequence (db vl))]\<rparr>)
          else
            let n = vlog_file_number vl + 1;
                vl1 = vl\<lparr>vlog_file_number := n, trace := trace vl @ [EvNewFile n]\<rparr>;
                s = NewAppendableRandomAccessFile x n
            in if \<not> ok s then Some (s, vl1)
               else
                 let recs = Finalize n 0 (value_batch gc);
                     f = \<lparr>meta_number = n, file_size = FileSize recs\<rparr>;
                     vl2 = vl1\<lparr>pending_outputs := insert n (pending_outputs vl1),
                               vlog_files := (vlog_files vl1)(n \<mapsto> value_batch gc),
                               synced := (if ok (FileSync_io x n)
                                          then (synced vl1)(n := FileSize recs)
                                          else synced vl1),
                               ro_files := emplace n f (ro_files vl1),
                               trace := trace vl1 @ [EvAddBatch n recs, EvFileSync n,
                                 EvBuilderFinish n, EvFileClose n, EvRoFilesEmplace n]\<rparr>
                 in if SP_AfterValueRewrite x then Some (s, vl2)
                    else Rewrite_LSM x vl2 gc f recs))"

section \<open>The background run\<close>

text \<open>The block of \<^verbatim>\<open>ValueLogImpl::BackgroundGC\<close> under the write lock.\<close>

definition BackgroundGC_pick :: "ValueLogImpl \<Rightarrow> (GarbageCollection option \<times> ValueLogImpl) option" where
  "BackgroundGC_pick vl =
     (if manual_gc vl
      then map_option (\<lambda>gc. (gc, vl\<lparr>manual_gc := False\<rparr>)) (PickGC vl (manual_gc_number vl))
      else map_option
             (\<lambda>gc. (gc, vl\<lparr>gc_pointer := (case gc of Some g \<Rightarrow> number g + 1 | None \<Rightarrow> 0)\<rparr>))
             (PickGC vl (gc_pointer vl)))"

text \<open>
  \<^verbatim>\<open>ValueLogImpl::BackgroundGC\<close>; \<open>now\<close> is the clock when the run ends. \<open>None\<close>: the run
  does not return (the loop of \<open>PickGC\<close> does not end, or undefined behaviour in
  \<open>Rewrite\<close>).
\<close>

definition BackgroundGC :: "ext \<Rightarrow> int \<Rightarrow> ValueLogImpl \<Rightarrow> ValueLogImpl option" where
  "BackgroundGC x now vl =
     (case BackgroundGC_pick vl of
        None \<Rightarrow> None
      | Some (None, vl1) \<Rightarrow> Some (RecordBGError NonFatal vl1)
      | Some (Some gc, vl1) \<Rightarrow>
          (case Collect_gc x vl1 gc of
             (s, gc1) \<Rightarrow>
               if \<not> ok s \<and> \<not> IsNonFatal s then Some (RecordBGError s vl1)
               else
                 (case Rewrite x (vl1\<lparr>db := SP_AfterCollect x (db vl1)\<rparr>) gc1 of
                    None \<Rightarrow> None
                  | Some (s', vl2) \<Rightarrow>
                      if \<not> ok s' \<and> \<not> IsNonFatal s' then Some (RecordBGError s' vl2)
                      else Some (RecordBGError s' (vl2\<lparr>gc_last_run := now\<rparr>)))))"

text \<open>
  \<^verbatim>\<open>ValueLogImpl::BGCall\<close>; \<open>now\<close> at the end of the run, \<open>now'\<close> when the next run is
  considered.
\<close>

definition BGCall :: "ext \<Rightarrow> int \<Rightarrow> int \<Rightarrow> ValueLogImpl \<Rightarrow> ValueLogImpl option" where
  "BGCall x now now' vl =
     map_option (\<lambda>vl1. MaybeScheduleGC now' (vl1\<lparr>bg_garbage_collection := False\<rparr>))
       (if shutdown vl then Some vl
        else if \<not> ok (bg_error vl) \<and> \<not> IsNonFatal (bg_error vl) then Some vl
        else BackgroundGC x now vl)"

section \<open>A concrete environment and a concrete value log\<close>

text \<open>
  Modelled from the spec: the handle encoding
  \<^verbatim>\<open>varint(file_number) fixed32(offset) fixed32(size)\<close> of \<^verbatim>\<open>table/format.h\<close>,
  little-endian, seven bits per varint byte. Bytes that do not decode give the zero
  handle. It instantiates the codec where a theorem is run on an example.
\<close>

fun PutVarint64 :: "nat \<Rightarrow> string" where
  "PutVarint64 n =
     (if n < 128 then [char_of n] else char_of (128 + n mod 128) # PutVarint64 (n div 128))"

definition PutFixed32 :: "32 word \<Rightarrow> string" where
  "PutFixed32 w =
     [char_of (unat w), char_of (unat w div 256), char_of (unat w div 65536),
      char_of (unat w div 16777216)]"

fun GetVarint64 :: "string \<Rightarrow> (nat \<times> string) option" where
  "GetVarint64 [] = None"
| "GetVarint64 (c # cs) =
     (if (of_char c :: nat) < 128 then Some (of_char c, cs)
      else case GetVarint64 cs of
             None \<Rightarrow> None
           | Some (n, rest) \<Rightarrow> Some (of_char c - 128 + 128 * n, rest))"

definition DecodeFixed32 :: "string \<Rightarrow> 32 word" where
  "DecodeFixed32 b =
     of_nat (of_char (b ! 0) + 256 * of_char (b ! 1) + 65536 * of_char (b ! 2)
             + 16777216 * of_char (b ! 3))"

definition handle_EncodeTo :: "ValueHandle \<Rightarrow> string \<Rightarrow> string" where
  "handle_EncodeTo h dst =
     PutVarint64 (unat (table h)) @ PutFixed32 (offset h) @ PutFixed32 (size_h h)"

definition handle_DecodeFrom :: "string \<Rightarrow> ValueHandle" where
  "handle_DecodeFrom b =
     (case GetVarint64 b of
        None \<Rightarrow> \<lparr>table = 0, offset = 0, size_h = 0\<rparr>
      | Some (n, rest) \<Rightarrow>
          if length rest < 8 then \<lparr>table = 0, offset = 0, size_h = 0\<rparr>
          else \<lparr>table = of_nat n, offset = DecodeFixed32 (take 4 rest),
                size_h = DecodeFixed32 (take 4 (drop 4 rest))\<rparr>)"

text \<open>An environment in which every call succeeds and no sync point is armed.\<close>

definition std_ext :: ext where
  "std_ext =
     \<lparr>DecodeFrom = handle_DecodeFrom, EncodeTo = handle_EncodeTo,
      ValueHandle0 = \<lparr>table = 0, offset = 0, size_h = 0\<rparr>, valueType0 = kTypeDeletion,
      NewAppendableRandomAccessFile = (\<lambda>n. OK), FileSync_io = (\<lambda>n. OK),
      Write_io = (\<lambda>b. OK), Sync_io = OK,
      LogAndApply_io = (\<lambda>e. OK), SP_AfterCollect = (\<lambda>d. d),
      SP_AfterValueRewrite = False, SP_AfterLSMRewrite = False\<rparr>"

text \<open>
  File 1 holds the records of \<open>k2\<close> and \<open>k1\<close>, six bytes each; file 2 is being
  written. In the LSM \<open>k1\<close> still points into file 1 and \<open>k2\<close> has been deleted.
\<close>

definition h1 :: ValueHandle where
  "h1 = \<lparr>table = 1, offset = 6, size_h = 6\<rparr>"

definition db0 :: DBImpl where
  "db0 = \<lparr>entries = (\<lambda>k. Absent)(''k1'' := Present kTypeValueHandle (handle_EncodeTo h1 [])),
          last_sequence = 3\<rparr>"

definition cb1 :: ValueLogGCWriteCallback where
  "cb1 = \<lparr>key_cb = ''k1'', handle_cb = h1\<rparr>"

definition cb2 :: ValueLogGCWriteCallback where
  "cb2 = \<lparr>key_cb = ''k2'', handle_cb = \<lparr>table = 1, offset = 0, size_h = 6\<rparr>\<rparr>"

definition vl0 :: ValueLogImpl where
  "vl0 =
     \<lparr>options = \<lparr>blob_gc_size_discard_threshold = 30, blob_gc_num_discard_threshold = 30,
                 blob_gc_interval = 600\<rparr>,
      db = db0, vlog_file_number = 2, shutdown = False,
      vlog_files = (\<lambda>n. None)(1 \<mapsto> [(''k2'', ''v2''), (''k1'', ''v1'')]),
      synced = (\<lambda>n. 0)(1 := 12),
      ro_files = [(1, \<lparr>meta_number = 1, file_size = 12\<rparr>)],
      pending_outputs = {}, obsolete_files = [],
      gc_pointer = 0, manual_gc = False, manual_gc_number = 0,
      bg_garbage_collection = True, gc_last_run = 0, bg_error = OK, trace = []\<rparr>"

text \<open>
  The value log after a run on \<open>vl0\<close> that the sync point
  \<^verbatim>\<open>GC.Rewrite.AfterValueRewrite\<close> ends early, as test
  \<^verbatim>\<open>DBWrapperGC_FailAfterValueRewrite\<close> does: file 3 is written and live, and no
  version edit names it.
\<close>

definition vl0_aborted :: ValueLogImpl where
  "vl0_aborted =
     vl0\<lparr>vlog_file_number := 3, gc_pointer := 2,
         vlog_files := (vlog_files vl0)(3 \<mapsto> [(''k1'', ''v1'')]),
         synced := (synced vl0)(3 := 6),
         ro_files := [(1, \<lparr>meta_number = 1, file_size = 12\<rparr>),
                      (3, \<lparr>meta_number = 3, file_size = 6\<rparr>)],
         pending_outputs := {3},
         gc_last_run := 100,
         trace := [EvNewFile 3,
           EvAddBatch 3 [(''k1'', ''v1'', \<lparr>table = 3, offset = 0, size_h = 6\<rparr>)],
           EvFileSync 3, EvBuilderFinish 3, EvFileClose 3, EvRoFilesEmplace 3]\<rparr>"

text \<open>
  What \<open>Collect\<close> gathers on file 1 of \<open>vl0\<close>, and the value log after the whole run:
  \<open>k1\<close> now points into file 3, file 1 is obsolete.
\<close>

definition gc1 :: GarbageCollection where
  "gc1 = \<lparr>number = 1, value_batch = [(''k1'', ''v1'')], rewrites_gc = [([], cb1)],
          total_size = 12, total_entries = 2, discard_size = 6, discard_entries = 1,
          obsolete_sequence = 0\<rparr>"

definition vl0_done :: ValueLogImpl where
  "vl0_done =
     vl0\<lparr>db := \<lparr>entries = (entries db0)(''k1'' := Present kTypeValueHandle
                    (handle_EncodeTo \<lparr>table = 3, offset = 0, size_h = 6\<rparr> [])),
                 last_sequence = 4\<rparr>,
         vlog_file_number := 3, gc_pointer := 2,
         vlog_files := (vlog_files vl0)(3 \<mapsto> [(''k1'', ''v1'')]),
         synced := (synced vl0)(3 := 6),
         ro_files := [(1, \<lparr>meta_number = 1, file_size = 12\<rparr>),
                      (3, \<lparr>meta_number = 3, file_size = 6\<rparr>)],
         pending_outputs := {3},
         obsolete_files := [(1, 4)],
         gc_last_run := 100,
         trace := [EvNewFile 3,
           EvAddBatch 3 [(''k1'', ''v1'', \<lparr>table = 3, offset = 0, size_h = 6\<rparr>)],
           EvFileSync 3, EvBuilderFinish 3, EvFileClose 3, EvRoFilesEmplace 3,
           EvDBWrite [(kTypeValueHandle, ''k1'',
             handle_EncodeTo \<lparr>table = 3, offset = 0, size_h = 6\<rparr> [])],
           EvDBSync,
           EvLogAndApply \<lparr>added = [\<lparr>meta_number = 3, file_size = 6\<rparr>],
                          deleted = [(1, 4)]\<rparr>]\<rparr>"

text \<open>\<open>vl0\<close> with thresholds of 60 percent.\<close>

definition vl0_hi :: ValueLogImpl where
  "vl0_hi = vl0\<lparr>options := \<lparr>blob_gc_size_discard_threshold = 60,
       blob_gc_num_discard_threshold = 60, blob_gc_interval = 600\<rparr>\<rparr>"

text \<open>
  The value log after the run on \<open>vl0\<close> in an environment where the \<^verbatim>\<open>Sync()\<close> of a
  vlog file fails: as \<open>vl0_done\<close>, but no byte of file 3 is durable.
\<close>

definition vl0_unsynced :: ValueLogImpl where
  "vl0_unsynced = vl0_done\<lparr>synced := synced vl0\<rparr>"

text \<open>
  A value of 49 999 993 bytes; with a key of two bytes its record takes 50 000 000
  bytes.
\<close>

definition big_value :: string where
  "big_value = replicate 49999993 (CHR ''v'')"

text \<open>
  A value log whose file 1 holds three small records and the record of \<open>big_value\<close>.
  The three small ones are current; \<open>k2\<close> has been overwritten by a value stored
  inline, so 50 000 000 of the 50 000 018 bytes of the file are dead. The thresholds are
  30 percent.
\<close>

definition db_big :: DBImpl where
  "db_big =
     \<lparr>entries = (\<lambda>k. Absent)
        (''k1'' := Present kTypeValueHandle (handle_EncodeTo \<lparr>table = 1, offset = 0, size_h = 6\<rparr> []),
         ''k3'' := Present kTypeValueHandle (handle_EncodeTo \<lparr>table = 1, offset = 6, size_h = 6\<rparr> []),
         ''k4'' := Present kTypeValueHandle (handle_EncodeTo \<lparr>table = 1, offset = 12, size_h = 6\<rparr> []),
         ''k2'' := Present kTypeValue ''new''),
      last_sequence = 5\<rparr>"

definition vl_big :: ValueLogImpl where
  "vl_big =
     vl0\<lparr>db := db_big,
         vlog_files := (\<lambda>n. None)
           (1 \<mapsto> [(''k1'', ''v1''), (''k3'', ''v3''), (''k4'', ''v4''), (''k2'', big_value)]),
         synced := (\<lambda>n. 0)(1 := 50000018),
         ro_files := [(1, \<lparr>meta_number = 1, file_size = 50000018\<rparr>)]\<rparr>"

text \<open>What \<open>Collect\<close> gathers on file 1 of \<open>vl_big\<close>.\<close>

definition gc_big :: GarbageCollection where
  "gc_big =
     \<lparr>number = 1,
      value_batch = [(''k1'', ''v1''), (''k3'', ''v3''), (''k4'', ''v4'')],
      rewrites_gc =
        [([], \<lparr>key_cb = ''k1'', handle_cb = \<lparr>table = 1, offset = 0, size_h = 6\<rparr>\<rparr>),
         ([], \<lparr>key_cb = ''k3'', handle_cb = \<lparr>table = 1, offset = 6, size_h = 6\<rparr>\<rparr>),
         ([], \<lparr>key_cb = ''k4'', handle_cb = \<lparr>table = 1, offset = 12, size_h = 6\<rparr>\<rparr>)],
      total_size = 50000018, total_entries = 4, discard_size = 50000000, discard_entries = 1,
      obsolete_sequence = 0\<rparr>"

section \<open>The properties, in the words of the specification\<close>

text \<open>
  The files \<open>PickGC\<close> may return from \<open>n\<close> on: live, numbered at least \<open>n\<close>, not
  obsolete.
\<close>

definition candidates :: "ValueLogImpl \<Rightarrow> 64 word \<Rightarrow> 64 word set" where
  "candidates vl n =
     {k \<in> fst ` set (ro_files vl). n \<le> k \<and> k \<notin> fst ` set (obsolete_files vl)}"

text \<open>The read of the record's key fails: the scan ends at this record.\<close>

definition lookup_failed :: "DBImpl \<Rightarrow> string \<times> string \<times> ValueHandle \<Rightarrow> bool" where
  "lookup_failed d r = (entries d (fst r) = Corrupt \<or> entries d (fst r) = Unreadable)"

text \<open>The records the loop of \<open>Collect\<close> gets through: those before the first failed read.\<close>

definition scanned :: "DBImpl \<Rightarrow> (string \<times> string \<times> ValueHandle) list \<Rightarrow> (string \<times> string \<times> ValueHandle) list" where
  "scanned d recs = takeWhile (\<lambda>r. \<not> lookup_failed d r) recs"

text \<open>
  A record is dead: its key is not found, or its entry is not a Handle, or the Handle
  decodes to another handle than the one the iterator reports.
\<close>

definition is_dead :: "ext \<Rightarrow> DBImpl \<Rightarrow> string \<times> string \<times> ValueHandle \<Rightarrow> bool" where
  "is_dead x d r =
     (case entries d (fst r) of
        Absent \<Rightarrow> True
      | Present t v \<Rightarrow> t \<noteq> kTypeValueHandle \<or> DecodeFrom x v \<noteq> snd (snd r)
      | Corrupt \<Rightarrow> False
      | Unreadable \<Rightarrow> False)"

text \<open>What the scan adds to a collection.\<close>

definition collected :: "ext \<Rightarrow> DBImpl \<Rightarrow> (string \<times> string \<times> ValueHandle) list \<Rightarrow> GarbageCollection \<Rightarrow> GarbageCollection" where
  "collected x d recs gc =
     gc\<lparr>total_entries := total_entries gc + of_nat (length (scanned d recs)),
        total_size := total_size gc + sum_list (map (\<lambda>r. size_h (snd (snd r))) (scanned d recs)),
        discard_entries := discard_entries gc
           + of_nat (length (filter (is_dead x d) (scanned d recs))),
        discard_size := discard_size gc
           + sum_list (map (\<lambda>r. size_h (snd (snd r))) (filter (is_dead x d) (scanned d recs))),
        value_batch := value_batch gc
           @ map (\<lambda>r. (fst r, fst (snd r))) (filter (\<lambda>r. \<not> is_dead x d r) (scanned d recs)),
        rewrites_gc := rewrites_gc gc
           @ map (\<lambda>r. ([], \<lparr>key_cb = fst r, handle_cb = snd (snd r)\<rparr>))
               (filter (\<lambda>r. \<not> is_dead x d r) (scanned d recs))\<rparr>"

text \<open>
  Both integer percentages of a collection, as \<^verbatim>\<open>uint32_t\<close> arithmetic gives them, are
  below their thresholds.
\<close>

definition below_threshold :: "Options \<Rightarrow> GarbageCollection \<Rightarrow> bool" where
  "below_threshold opt gc =
     (unat (discard_size gc * 100 div total_size gc) < blob_gc_size_discard_threshold opt \<and>
      unat (discard_entries gc * 100 div total_entries gc) < blob_gc_num_discard_threshold opt)"

text \<open>
  The integer percentage of the specification, \<open>discard * 100 / total\<close> on the
  numbers themselves.
\<close>

definition percentage :: "32 word \<Rightarrow> 32 word \<Rightarrow> nat" where
  "percentage discard tot = unat discard * 100 div unat tot"

text \<open>The bytes a handle references are durable.\<close>

definition handle_durable :: "ValueLogImpl \<Rightarrow> ValueHandle \<Rightarrow> bool" where
  "handle_durable vl h = (unat (offset h) + unat (size_h h) \<le> synced vl (table h))"

text \<open>The members of the value log that scheduling and picking own.\<close>

definition gc_part :: "ValueLogImpl \<Rightarrow> 64 word \<times> bool \<times> 64 word \<times> status \<times> int \<times> bool \<times> bool \<times> Options" where
  "gc_part vl = (gc_pointer vl, manual_gc vl, manual_gc_number vl, bg_error vl, gc_last_run vl,
     bg_garbage_collection vl, shutdown vl, options vl)"

section \<open>Evaluating the model\<close>

lemmas run_defs =
  BackgroundGC_def BackgroundGC_pick_def PickGC_def PickGC_loop.simps GarbageCollection_new_def
  Collect_gc_def CurrentFileNumber_def NewVLogFileIterator_def record_size_def
  DBImpl_Get_def DB_Get_def ok_def IsNotFound_def IsNonFatal_def
  Rewrite_def Rewrite_LSM_def discard_ratio_def LogAndApply_def LatestSequence_def
  FileSize_def emplace_def DBImpl_Write_def Callback_def RecordBGError_def
  word_le_nat_alt word_less_nat_alt Let_def

lemmas codec_defs = handle_DecodeFrom_def handle_EncodeTo_def PutFixed32_def DecodeFixed32_def

lemmas example_defs = vl0_def db0_def std_ext_def cb1_def cb2_def h1_def

lemma run_aborted:
  "BackgroundGC (std_ext\<lparr>SP_AfterValueRewrite := True\<rparr>) 100 vl0 = Some vl0_aborted"
  by (simp add: run_defs codec_defs example_defs vl0_aborted_def)

lemma pick_aborted: "PickGC vl0_aborted 2 = Some (Some (GarbageCollection_new 3))"
  by (simp add: PickGC_def PickGC_loop.simps vl0_aborted_def vl0_def
      word_le_nat_alt word_less_nat_alt)

section \<open>The commit callback is a compare-and-swap on the stored bytes\<close>

lemma Callback_Absent:
  "entries d (key_cb cb) = Absent \<Longrightarrow> Callback x cb d = NotFound"
  by (simp add: Callback_def DB_Get_def ok_def)

lemma Callback_Present:
  "entries d (key_cb cb) = Present t v \<Longrightarrow> t \<noteq> kTypeDeletion \<Longrightarrow>
     Callback x cb d = (if DecodeFrom x v \<noteq> handle_cb cb then InvalidArgument else OK)"
  by (simp add: Callback_def DB_Get_def ok_def)

lemma DBImpl_Write_rejected:
  "\<not> ok (callback d) \<Longrightarrow> DBImpl_Write io d wb callback = (OK, d)"
  by (simp add: DBImpl_Write_def)

lemma std_codec_h1 [simp]: "handle_DecodeFrom (handle_EncodeTo h1 dst) = h1"
  by (simp add: handle_DecodeFrom_def handle_EncodeTo_def PutFixed32_def DecodeFixed32_def h1_def)

text \<open>
  The callback reads the bytes without their tag. An inline value whose bytes are the
  encoding of the old handle passes the check, and the rewrite replaces it.
\<close>

lemma Callback_ignores_tag:
  "Callback std_ext cb1
     (db0\<lparr>entries := (entries db0)(''k1'' := Present kTypeValue (handle_EncodeTo h1 []))\<rparr>) = OK"
  by (simp add: Callback_Present cb1_def std_ext_def)

text \<open>
  C1, as stated, fails: for a key that has been deleted the callback returns the status
  of the read, NotFound, and not InvalidArgument.
\<close>

theorem C1_deleted_key_counterexample:
  "entries db0 ''k2'' = Absent \<and> key_cb cb2 = ''k2'' \<and>
   Callback std_ext cb2 db0 = NotFound \<and> Callback std_ext cb2 db0 \<noteq> InvalidArgument"
  by (simp add: Callback_def DB_Get_def ok_def db0_def cb2_def)

text \<open>
  C1, amended: the callback re-reads the key; for a key with no entry it returns
  NotFound, for stored bytes that decode to a handle other than the old one it returns
  InvalidArgument, for a Handle entry that decodes to the old handle it returns OK;
  whenever it does not return OK the write drops the batch and leaves the LSM as it
  was, so the entry the user wrote is the one a later read finds.
\<close>

theorem C1_callback_compare_and_swap:
  "(entries d (key_cb cb) = Absent \<longrightarrow> Callback x cb d = NotFound) \<and>
   (\<forall>t v. entries d (key_cb cb) = Present t v \<and> t \<noteq> kTypeDeletion \<and>
          DecodeFrom x v \<noteq> handle_cb cb \<longrightarrow> Callback x cb d = InvalidArgument) \<and>
   (\<forall>v. entries d (key_cb cb) = Present kTypeValueHandle v \<and> DecodeFrom x v = handle_cb cb
          \<longrightarrow> Callback x cb d = OK) \<and>
   (\<not> ok (Callback x cb d) \<longrightarrow>
      DBImpl_Write io d wb (Callback x cb) = (OK, d) \<and>
      (\<forall>k. DB_Get (snd (DBImpl_Write io d wb (Callback x cb))) k [] = DB_Get d k []))"
  by (simp add: Callback_Absent Callback_Present DBImpl_Write_rejected)

theorem C1_callback_compare_and_swap_witness:
  "Callback std_ext cb2 db0 = NotFound \<and>
   Callback std_ext cb1 (db0\<lparr>entries := (entries db0)(''k1'' := Present kTypeValue ''new'')\<rparr>)
     = InvalidArgument \<and>
   Callback std_ext cb1 db0 = OK \<and>
   DBImpl_Write OK (db0\<lparr>entries := (entries db0)(''k1'' := Present kTypeValue ''new'')\<rparr>)
     [(kTypeValueHandle, ''k1'', ''x'')] (Callback std_ext cb1)
     = (OK, db0\<lparr>entries := (entries db0)(''k1'' := Present kTypeValue ''new'')\<rparr>)"
proof -
  let ?d = "db0\<lparr>entries := (entries db0)(''k1'' := Present kTypeValue ''new'')\<rparr>"
  have a: "entries db0 (key_cb cb2) = Absent"
    by (simp add: db0_def cb2_def)
  have b: "entries ?d (key_cb cb1) = Present kTypeValue ''new'' \<and> kTypeValue \<noteq> kTypeDeletion \<and>
           DecodeFrom std_ext ''new'' \<noteq> handle_cb cb1"
    by (simp add: cb1_def std_ext_def handle_DecodeFrom_def h1_def)
  have c: "entries db0 (key_cb cb1) = Present kTypeValueHandle (handle_EncodeTo h1 []) \<and>
           DecodeFrom std_ext (handle_EncodeTo h1 []) = handle_cb cb1"
    by (simp add: cb1_def db0_def std_ext_def)
  from a C1_callback_compare_and_swap [of db0 cb2 std_ext OK "[]"]
  have 1: "Callback std_ext cb2 db0 = NotFound" by blast
  from b C1_callback_compare_and_swap [of ?d cb1 std_ext OK "[(kTypeValueHandle, ''k1'', ''x'')]"]
  have 2: "Callback std_ext cb1 ?d = InvalidArgument" by blast
  from c C1_callback_compare_and_swap [of db0 cb1 std_ext OK "[]"]
  have 3: "Callback std_ext cb1 db0 = OK" by blast
  from 2 C1_callback_compare_and_swap [of ?d cb1 std_ext OK "[(kTypeValueHandle, ''k1'', ''x'')]"]
  have 4: "DBImpl_Write OK ?d [(kTypeValueHandle, ''k1'', ''x'')] (Callback std_ext cb1) = (OK, ?d)"
    by (simp add: ok_def)
  from 1 2 3 4 show ?thesis by simp
qed

section \<open>What a rewrite leaves untouched\<close>

lemma gc_part_update [simp]:
  "gc_part (vl\<lparr>trace := t\<rparr>) = gc_part vl"
  "gc_part (vl\<lparr>db := d\<rparr>) = gc_part vl"
  "gc_part (vl\<lparr>ro_files := r\<rparr>) = gc_part vl"
  "gc_part (vl\<lparr>obsolete_files := b\<rparr>) = gc_part vl"
  "gc_part (vl\<lparr>pending_outputs := p\<rparr>) = gc_part vl"
  "gc_part (vl\<lparr>vlog_files := fs\<rparr>) = gc_part vl"
  "gc_part (vl\<lparr>synced := sy\<rparr>) = gc_part vl"
  "gc_part (vl\<lparr>vlog_file_number := n\<rparr>) = gc_part vl"
  by (simp_all add: gc_part_def)

lemma LogAndApply_gc_part: "gc_part (snd (LogAndApply x vl e)) = gc_part vl"
  by (simp add: LogAndApply_def Let_def)

lemma Rewrite_LSM_gc_part:
  assumes "Rewrite_LSM x vl gc f recs = Some (s, vl')"
  shows "gc_part vl' = gc_part vl"
proof (cases "Iterate x (shutdown vl) recs (rewrites_gc gc) [] OK (db vl) (trace vl)")
  case None
  with assms show ?thesis by (simp add: Rewrite_LSM_def)
next
  case (Some r)
  obtain hs d tr where r: "r = (hs, d, tr)" by (cases r)
  let ?vl2 = "vl\<lparr>db := d, trace := tr @ [EvDBSync]\<rparr>"
  let ?e = "\<lparr>added = [f], deleted = [(number gc, LatestSequence d)]\<rparr>"
  from assms Some r
  have "vl' = vl\<lparr>db := d, trace := tr\<rparr> \<or> vl' = ?vl2 \<or> vl' = snd (LogAndApply x ?vl2 ?e)"
    by (simp add: Rewrite_LSM_def Let_def split: if_splits)
  then show ?thesis
    by (auto simp: LogAndApply_gc_part)
qed

lemma Rewrite_gc_part:
  assumes "Rewrite x vl gc = Some (s, vl')"
  shows "gc_part vl' = gc_part vl"
proof -
  let ?n = "vlog_file_number vl + 1"
  let ?vl1 = "vl\<lparr>vlog_file_number := ?n, trace := trace vl @ [EvNewFile ?n]\<rparr>"
  let ?recs = "Finalize ?n 0 (value_batch gc)"
  let ?f = "\<lparr>meta_number = ?n, file_size = FileSize ?recs\<rparr>"
  let ?vl2 = "?vl1\<lparr>pending_outputs := insert ?n (pending_outputs ?vl1),
                    vlog_files := (vlog_files ?vl1)(?n \<mapsto> value_batch gc),
                    synced := (if ok (FileSync_io x ?n) then (synced ?vl1)(?n := FileSize ?recs)
                               else synced ?vl1),
                    ro_files := emplace ?n ?f (ro_files ?vl1),
                    trace := trace ?vl1 @ [EvAddBatch ?n ?recs, EvFileSync ?n,
                                 EvBuilderFinish ?n, EvFileClose ?n, EvRoFilesEmplace ?n]\<rparr>"
  from assms
  have "vl' = vl \<or> vl' = snd (LogAndApply x vl \<lparr>added = [], deleted = [(number gc, LatestSequence (db vl))]\<rparr>)
        \<or> vl' = ?vl1 \<or> vl' = ?vl2 \<or> Rewrite_LSM x ?vl2 gc ?f ?recs = Some (s, vl')"
    unfolding Rewrite_def Let_def
    by (simp split: option.splits if_splits)
  then show ?thesis
    by (auto simp: LogAndApply_gc_part dest!: Rewrite_LSM_gc_part)
qed

section \<open>Picking a file: the lowest live file that is not obsolete\<close>

lemma lower_bound_None: "lower_bound n xs = None \<longleftrightarrow> (\<forall>k \<in> fst ` set xs. \<not> n \<le> k)"
  by (induction xs) (auto split: option.splits if_splits)

lemma lower_bound_Some:
  "lower_bound n xs = Some k \<Longrightarrow> k \<in> fst ` set xs \<and> n \<le> k \<and> (\<forall>k' \<in> fst ` set xs. n \<le> k' \<longrightarrow> k \<le> k')"
proof (induction xs arbitrary: k)
  case Nil
  then show ?case by simp
next
  case (Cons a xs)
  obtain a1 a2 where a: "a = (a1, a2)" by (cases a)
  show ?case
  proof (cases "lower_bound n xs")
    case None
    with Cons.prems a have "n \<le> a1" "k = a1" by (auto split: if_splits)
    moreover from None have "\<forall>k \<in> fst ` set xs. \<not> n \<le> k" by (simp add: lower_bound_None)
    ultimately show ?thesis using a by auto
  next
    case (Some k')
    from Cons.IH [OF Some] have ih: "k' \<in> fst ` set xs" "n \<le> k'" "\<forall>j \<in> fst ` set xs. n \<le> j \<longrightarrow> k' \<le> j"
      by auto
    show ?thesis
    proof (cases "n \<le> a1 \<and> a1 < k'")
      case True
      with Cons.prems a Some have "k = a1" by simp
      with True ih a show ?thesis by fastforce
    next
      case False
      with Cons.prems a Some have "k = k'" by auto
      with False ih a show ?thesis by fastforce
    qed
  qed
qed

lemma PickGC_loop_sound_aux:
  assumes "PickGC_loop ro obs n = Some y"
  shows "case y of None \<Rightarrow> True | Some k \<Rightarrow> k \<in> fst ` set ro \<and> k \<notin> fst ` set obs"
proof (rule PickGC_loop.raw_induct
    [where P = "\<lambda>ro obs n y. case y of None \<Rightarrow> True | Some k \<Rightarrow> k \<in> fst ` set ro \<and> k \<notin> fst ` set obs",
     OF _ assms])
  fix pick :: "(64 word \<times> VLogFileMeta) list \<Rightarrow> (64 word \<times> 64 word) list \<Rightarrow> 64 word \<Rightarrow> 64 word option option"
  fix ro obs n y
  assume ih: "\<And>ro obs n y. pick ro obs n = Some y \<Longrightarrow>
     (case y of None \<Rightarrow> True | Some k \<Rightarrow> k \<in> fst ` set ro \<and> k \<notin> fst ` set obs)"
  assume eq: "(case lower_bound n ro of
        None \<Rightarrow> Some None
      | Some k \<Rightarrow> if map_of obs k = None then Some (Some k) else pick ro obs (k + 1)) = Some y"
  show "case y of None \<Rightarrow> True | Some k \<Rightarrow> k \<in> fst ` set ro \<and> k \<notin> fst ` set obs"
  proof (cases "lower_bound n ro")
    case None
    with eq show ?thesis by auto
  next
    case (Some k)
    from lower_bound_Some [OF Some] have k: "k \<in> fst ` set ro" by auto
    show ?thesis
    proof (cases "map_of obs k = None")
      case True
      then have "k \<notin> fst ` set obs" by (simp add: map_of_eq_None_iff)
      moreover from eq Some True have "y = Some k" by simp
      ultimately show ?thesis using k by simp
    next
      case False
      with eq Some have "pick ro obs (k + 1) = Some y" by auto
      from ih [OF this] show ?thesis .
    qed
  qed
qed

lemma PickGC_sound:
  "PickGC vl n = Some (Some g) \<Longrightarrow>
     number g \<in> fst ` set (ro_files vl) \<and> number g \<notin> fst ` set (obsolete_files vl)"
proof -
  assume "PickGC vl n = Some (Some g)"
  then obtain k where k: "PickGC_loop (ro_files vl) (obsolete_files vl) n = Some (Some k)"
    and g: "g = GarbageCollection_new k"
    by (auto simp: PickGC_def)
  from PickGC_loop_sound_aux [OF k] g show ?thesis
    by (simp add: GarbageCollection_new_def)
qed

lemma PickGC_pending_outputs: "PickGC (vl\<lparr>pending_outputs := P\<rparr>) n = PickGC vl n"
  by (simp add: PickGC_def)

text \<open>
  C7, as stated, fails. The run on \<open>vl0\<close> that ends at the sync point after the value
  rewrite leaves file 3 in \<open>pending_outputs\<close> with no version edit for it, and the next
  automatic pick selects file 3.
\<close>

theorem C7_uncommitted_output_picked_counterexample:
  "(case BackgroundGC (std_ext\<lparr>SP_AfterValueRewrite := True\<rparr>) 100 vl0 of
      None \<Rightarrow> False
    | Some vl \<Rightarrow>
        3 \<in> pending_outputs vl \<and>
        trace vl = [EvNewFile 3,
          EvAddBatch 3 [(''k1'', ''v1'', \<lparr>table = 3, offset = 0, size_h = 6\<rparr>)],
          EvFileSync 3, EvBuilderFinish 3, EvFileClose 3, EvRoFilesEmplace 3] \<and>
        bg_error vl = OK \<and>
        PickGC vl (gc_pointer vl) = Some (Some (GarbageCollection_new 3)))"
proof -
  have "gc_pointer vl0_aborted = 2" "pending_outputs vl0_aborted = {3}" "bg_error vl0_aborted = OK"
    "trace vl0_aborted = [EvNewFile 3,
          EvAddBatch 3 [(''k1'', ''v1'', \<lparr>table = 3, offset = 0, size_h = 6\<rparr>)],
          EvFileSync 3, EvBuilderFinish 3, EvFileClose 3, EvRoFilesEmplace 3]"
    by (simp_all add: vl0_aborted_def vl0_def)
  then show ?thesis
    by (simp add: run_aborted pick_aborted)
qed

text \<open>
  C7, amended: \<open>PickGC\<close> does not consult \<open>pending_outputs\<close>; it returns only a file
  that is in \<open>ro_files\<close> and not in \<open>obsolete_files\<close>, so an output of a rewrite can be
  picked from the moment \<open>Rewrite\<close> has put it into \<open>ro_files\<close>.
\<close>

theorem C7_PickGC_ignores_pending_outputs:
  "PickGC (vl\<lparr>pending_outputs := P\<rparr>) n = PickGC vl n \<and>
   (\<forall>g. PickGC vl n = Some (Some g) \<longrightarrow>
      number g \<in> fst ` set (ro_files vl) \<and> number g \<notin> fst ` set (obsolete_files vl))"
  using PickGC_sound by (simp add: PickGC_pending_outputs)

theorem C7_PickGC_ignores_pending_outputs_witness:
  "PickGC (vl0_aborted\<lparr>pending_outputs := {}\<rparr>) 2 = PickGC vl0_aborted 2 \<and>
   PickGC vl0_aborted 2 = Some (Some (GarbageCollection_new 3)) \<and>
   3 \<in> fst ` set (ro_files vl0_aborted) \<and> 3 \<notin> fst ` set (obsolete_files vl0_aborted)"
  using C7_PickGC_ignores_pending_outputs [where vl = vl0_aborted and P = "{}" and n = 2] pick_aborted
  by (simp add: GarbageCollection_new_def)


lemma PickGC_loop_result:
  assumes nomax: "- 1 \<notin> fst ` set ro"
  shows "PickGC_loop ro obs n =
           Some (if {k \<in> fst ` set ro. n \<le> k \<and> k \<notin> fst ` set obs} = {} then None
                 else Some (Min {k \<in> fst ` set ro. n \<le> k \<and> k \<notin> fst ` set obs}))"
    (is "_ = Some (if ?C n = {} then None else Some (Min (?C n)))")
proof (induction "card {k \<in> fst ` set ro. n \<le> k}" arbitrary: n rule: less_induct)
  case less
  show ?case
  proof (cases "lower_bound n ro")
    case None
    then have "?C n = {}"
      by (auto simp: lower_bound_None)
    with None show ?thesis
      by (subst PickGC_loop.simps) simp
  next
    case (Some k)
    from lower_bound_Some [OF Some]
    have k: "k \<in> fst ` set ro" "n \<le> k" "\<forall>j \<in> fst ` set ro. n \<le> j \<longrightarrow> k \<le> j"
      by auto
    show ?thesis
    proof (cases "map_of obs k = None")
      case True
      then have kc: "k \<in> ?C n"
        using k by (simp add: map_of_eq_None_iff)
      have fin: "finite (?C n)"
        by simp
      have "\<forall>j \<in> ?C n. k \<le> j"
        using k by auto
      with kc fin have "Min (?C n) = k"
        by (intro Min_eqI) auto
      moreover from kc have "?C n \<noteq> {}" by blast
      moreover have "PickGC_loop ro obs n = Some (Some k)"
        using Some True by (subst PickGC_loop.simps) simp
      ultimately show ?thesis
        by simp
    next
      case False
      from k(1) nomax have kmax: "k \<noteq> - 1" by blast
      then have step: "\<And>j. (k + 1 \<le> j) = (k < j)"
        by (simp add: inc_less_eq_iff)
      have sub: "{j \<in> fst ` set ro. k + 1 \<le> j} \<subset> {j \<in> fst ` set ro. n \<le> j}"
        using k by (auto simp: step)
      have "card {j \<in> fst ` set ro. k + 1 \<le> j} < card {j \<in> fst ` set ro. n \<le> j}"
        by (rule psubset_card_mono [OF _ sub]) simp
      from less [OF this]
      have ih: "PickGC_loop ro obs (k + 1) =
          Some (if ?C (k + 1) = {} then None else Some (Min (?C (k + 1))))" .
      have ceq: "?C (k + 1) = ?C n"
      proof -
        have "\<And>j. j \<in> fst ` set ro \<Longrightarrow> j \<notin> fst ` set obs \<Longrightarrow> (k < j) = (n \<le> j)"
        proof -
          fix j assume j: "j \<in> fst ` set ro" "j \<notin> fst ` set obs"
          from False have "k \<in> fst ` set obs" by (simp add: map_of_eq_None_iff)
          with j have "j \<noteq> k" by blast
          with k j show "(k < j) = (n \<le> j)" by (metis order.strict_iff_order order.strict_trans1)
        qed
        then show ?thesis
          unfolding step by blast
      qed
      have "PickGC_loop ro obs n = PickGC_loop ro obs (k + 1)"
        using Some False by (subst PickGC_loop.simps) auto
      with ih show ?thesis
        by (simp only: ceq)
    qed
  qed
qed

lemma PickGC_result:
  assumes "- 1 \<notin> fst ` set (ro_files vl)"
  shows "PickGC vl n =
     Some (if candidates vl n = {} then None
           else Some (GarbageCollection_new (Min (candidates vl n))))"
  using PickGC_loop_result [OF assms, of "obsolete_files vl" n]
  by (simp add: PickGC_def candidates_def)



lemma BackgroundGC_gc_pointer:
  assumes run: "BackgroundGC x now vl = Some vl'"
    and pick: "BackgroundGC_pick vl = Some (g, vl1)"
  shows "gc_pointer vl' = gc_pointer vl1"
proof (cases g)
  case None
  with run pick show ?thesis
    by (auto simp: BackgroundGC_def RecordBGError_def)
next
  case (Some gc)
  obtain s gc1 where c: "Collect_gc x vl1 gc = (s, gc1)" by (cases "Collect_gc x vl1 gc")
  show ?thesis
  proof (cases "\<not> ok s \<and> \<not> IsNonFatal s")
    case True
    with run pick Some c show ?thesis
      by (auto simp: BackgroundGC_def RecordBGError_def)
  next
    case False
    let ?vl2 = "vl1\<lparr>db := SP_AfterCollect x (db vl1)\<rparr>"
    from run pick Some c False obtain s' vl3 where r: "Rewrite x ?vl2 gc1 = Some (s', vl3)"
      by (auto simp: BackgroundGC_def split: option.splits)
    from Rewrite_gc_part [OF r] have "gc_pointer vl3 = gc_pointer vl1"
      by (simp add: gc_part_def)
    with run pick Some c False r show ?thesis
      by (auto simp: BackgroundGC_def RecordBGError_def split: if_splits)
  qed
qed

text \<open>
  C6: provided no live file carries the number \<open>2^64 - 1\<close> (so that \<^verbatim>\<open>it->first + 1\<close>
  does not wrap), \<open>PickGC n\<close> returns and its result is the least live file number
  from \<open>n\<close> on that is not obsolete, or no candidate when there is none. In the
  automatic path the block under the lock sets \<open>gc_pointer\<close> to the candidate plus one,
  or to 0 on an empty pick, the run leaves it at that, and on an empty pick the run
  returns at once with NonFatal recorded.
\<close>

theorem C6_PickGC_lowest_live_file:
  assumes "- 1 \<notin> fst ` set (ro_files vl)"
  shows "PickGC vl n =
           Some (if candidates vl n = {} then None
                 else Some (GarbageCollection_new (Min (candidates vl n)))) \<and>
         (\<not> manual_gc vl \<longrightarrow>
            BackgroundGC_pick vl =
              Some (if candidates vl (gc_pointer vl) = {} then (None, vl\<lparr>gc_pointer := 0\<rparr>)
                    else (Some (GarbageCollection_new (Min (candidates vl (gc_pointer vl)))),
                          vl\<lparr>gc_pointer := Min (candidates vl (gc_pointer vl)) + 1\<rparr>)) \<and>
            (\<forall>vl'. BackgroundGC x now vl = Some vl' \<longrightarrow>
               gc_pointer vl' = (if candidates vl (gc_pointer vl) = {} then 0
                                 else Min (candidates vl (gc_pointer vl)) + 1)) \<and>
            (candidates vl (gc_pointer vl) = {} \<longrightarrow>
               BackgroundGC x now vl = Some (vl\<lparr>gc_pointer := 0, bg_error := NonFatal\<rparr>)))"
proof (intro conjI impI allI)
  show "PickGC vl n =
           Some (if candidates vl n = {} then None
                 else Some (GarbageCollection_new (Min (candidates vl n))))"
    by (rule PickGC_result [OF assms])
next
  assume auto: "\<not> manual_gc vl"
  then show pick: "BackgroundGC_pick vl =
              Some (if candidates vl (gc_pointer vl) = {} then (None, vl\<lparr>gc_pointer := 0\<rparr>)
                    else (Some (GarbageCollection_new (Min (candidates vl (gc_pointer vl)))),
                          vl\<lparr>gc_pointer := Min (candidates vl (gc_pointer vl)) + 1\<rparr>))"
    by (simp add: BackgroundGC_pick_def PickGC_result [OF assms] GarbageCollection_new_def)
  {
    fix vl' assume "BackgroundGC x now vl = Some vl'"
    from BackgroundGC_gc_pointer [OF this] pick
    show "gc_pointer vl' = (if candidates vl (gc_pointer vl) = {} then 0
                                 else Min (candidates vl (gc_pointer vl)) + 1)"
      by (simp split: if_splits)
  }
  {
    assume "candidates vl (gc_pointer vl) = {}"
    with pick show "BackgroundGC x now vl = Some (vl\<lparr>gc_pointer := 0, bg_error := NonFatal\<rparr>)"
      by (simp add: BackgroundGC_def RecordBGError_def)
  }
qed

theorem C6_PickGC_lowest_live_file_witness:
  "- 1 \<notin> fst ` set (ro_files vl0) \<and>
   PickGC vl0 0 = Some (Some (GarbageCollection_new 1)) \<and>
   BackgroundGC_pick vl0 = Some (Some (GarbageCollection_new 1), vl0\<lparr>gc_pointer := 2\<rparr>) \<and>
   BackgroundGC std_ext 100 (vl0\<lparr>gc_pointer := 5\<rparr>) =
     Some (vl0\<lparr>gc_pointer := 0, bg_error := NonFatal\<rparr>)"
proof -
  have h: "- 1 \<notin> fst ` set (ro_files vl0)" "- 1 \<notin> fst ` set (ro_files (vl0\<lparr>gc_pointer := 5\<rparr>))"
    by (simp_all add: vl0_def)
  have c0: "candidates vl0 0 = {1}" "gc_pointer vl0 = 0" "\<not> manual_gc vl0"
    by (auto simp: candidates_def vl0_def)
  have c5: "candidates (vl0\<lparr>gc_pointer := 5\<rparr>) 5 = {}" "\<not> manual_gc (vl0\<lparr>gc_pointer := 5\<rparr>)"
    by (auto simp: candidates_def vl0_def word_le_nat_alt)
  from C6_PickGC_lowest_live_file [OF h(1), of 0 std_ext 100] c0
  have 1: "PickGC vl0 0 = Some (Some (GarbageCollection_new 1))"
    and 2: "BackgroundGC_pick vl0 = Some (Some (GarbageCollection_new 1), vl0\<lparr>gc_pointer := 2\<rparr>)"
    by simp_all
  from C6_PickGC_lowest_live_file [OF h(2), of 0 std_ext 100] c5
  have 3: "BackgroundGC std_ext 100 (vl0\<lparr>gc_pointer := 5\<rparr>) =
     Some (vl0\<lparr>gc_pointer := 0, bg_error := NonFatal\<rparr>)"
    by simp
  from h(1) 1 2 3 show ?thesis
    by blast
qed


section \<open>Rewrite: thresholds, order of the calls\<close>

lemma collect_vl0: "Collect_gc std_ext vl0 (GarbageCollection_new 1) = (OK, gc1)"
  by (simp add: run_defs codec_defs example_defs gc1_def)

lemma rewrite_vl0: "Rewrite std_ext (vl0\<lparr>gc_pointer := 2\<rparr>) gc1 = Some (OK, vl0_done\<lparr>gc_last_run := 0\<rparr>)"
  by (simp add: run_defs codec_defs example_defs gc1_def vl0_done_def)

lemma run_done: "BackgroundGC std_ext 100 vl0 = Some vl0_done"
  by (simp add: run_defs codec_defs example_defs vl0_done_def)

lemma Rewrite_zero_total:
  "total_size gc = 0 \<or> total_entries gc = 0 \<Longrightarrow> Rewrite x vl gc = None"
  by (auto simp: Rewrite_def discard_ratio_def)

lemma pick_done: "PickGC vl0_done 2 = Some (Some (GarbageCollection_new 3))"
  by (simp add: PickGC_def PickGC_loop.simps vl0_done_def vl0_def
      word_le_nat_alt word_less_nat_alt)

lemma collect_done:
  "Collect_gc std_ext vl0_done (GarbageCollection_new 3) = (NonFatal, GarbageCollection_new 3)"
  by (simp add: Collect_gc_def CurrentFileNumber_def GarbageCollection_new_def vl0_done_def vl0_def)

text \<open>
  C5 does not hold of the code: \<open>Rewrite\<close> has no guard. After the run on \<open>vl0\<close> the
  newest file is the output, file 3; the next automatic run picks it, \<open>Collect\<close>
  rejects it with NonFatal (its number is the current file number) and scans nothing,
  and \<open>Rewrite\<close> divides by the zero totals.
\<close>

theorem C5_division_by_zero:
  "BackgroundGC std_ext 100 vl0 = Some vl0_done \<and>
   PickGC vl0_done (gc_pointer vl0_done) = Some (Some (GarbageCollection_new 3)) \<and>
   Collect_gc std_ext vl0_done (GarbageCollection_new 3) = (NonFatal, GarbageCollection_new 3) \<and>
   total_size (GarbageCollection_new 3) = 0 \<and> total_entries (GarbageCollection_new 3) = 0 \<and>
   Rewrite std_ext vl0_done (GarbageCollection_new 3) = None \<and>
   BackgroundGC std_ext 200 vl0_done = None"
proof -
  have gp: "gc_pointer vl0_done = 2" "\<not> manual_gc vl0_done"
    by (simp_all add: vl0_done_def vl0_def)
  have z: "total_size (GarbageCollection_new 3) = 0" "total_entries (GarbageCollection_new 3) = 0"
    by (simp_all add: GarbageCollection_new_def)
  have r: "\<And>vl. Rewrite std_ext vl (GarbageCollection_new 3) = None"
    by (rule Rewrite_zero_total) (simp add: z)
  have "BackgroundGC std_ext 200 vl0_done = None"
    by (simp add: run_defs example_defs vl0_done_def)
  with run_done pick_done collect_done z r gp show ?thesis
    by simp
qed


lemma Iterate_trace:
  assumes "Iterate x sd recs iter enc s d tr = Some (hs, d', tr')"
  shows "\<exists>ws. tr' = tr @ map EvDBWrite ws \<and>
           (length iter = length recs \<and> ok s \<and> ok hs \<longrightarrow> length ws = length recs)"
  using assms
proof (induction x sd recs iter enc s d tr rule: Iterate.induct)
  case (1 x sd iter enc s d tr)
  then show ?case by simp
next
  case (2 x sd key "value" handle recs iter enc s d tr)
  show ?case
  proof (cases sd)
    case True
    with 2(2) have "tr' = tr" "hs = IOError" by simp_all
    then show ?thesis by (simp add: ok_def)
  next
    case False
    with 2(2) obtain wb cb iter' where iter: "iter = (wb, cb) # iter'"
      by (cases iter) auto
    let ?enc = "EncodeTo x handle enc"
    let ?wb = "wb @ [(kTypeValueHandle, key, ?enc)]"
    obtain ws d1 where w: "DBImpl_Write (Write_io x ?wb) d ?wb (Callback x cb) = (ws, d1)"
      by (cases "DBImpl_Write (Write_io x ?wb) d ?wb (Callback x cb)")
    show ?thesis
    proof (cases "ok ws")
      case nok: False
      with 2(2) False iter w have "tr' = tr @ [EvDBWrite ?wb]" "hs = IOError"
        by (simp_all add: Let_def)
      then have "tr' = tr @ map EvDBWrite [?wb]" "\<not> ok hs" by (simp_all add: ok_def)
      then show ?thesis by blast
    next
      case okw: True
      show ?thesis
      proof (cases "iter' = []")
        case True
        with 2(2) False iter w okw have "tr' = tr @ map EvDBWrite [?wb]"
          by (simp add: Let_def)
        moreover from True iter have "length iter = length ((key, value, handle) # recs) \<longrightarrow> length [?wb] = length ((key, value, handle) # recs)"
          by simp
        ultimately show ?thesis by blast
      next
        case ne: False
        with 2(2) False iter w okw
        have rec: "Iterate x sd recs iter' ?enc ws d1 (tr @ [EvDBWrite ?wb]) = Some (hs, d', tr')"
          by (simp add: Let_def)
        from okw have nn: "\<not> \<not> ok ws" by simp
        from 2(1) [OF False iter refl refl refl w [symmetric] nn ne rec]
        obtain ws' where ws': "tr' = (tr @ [EvDBWrite ?wb]) @ map EvDBWrite ws'"
          "length iter' = length recs \<and> ok ws \<and> ok hs \<longrightarrow> length ws' = length recs"
          by auto
        from ws' okw iter have "tr' = tr @ map EvDBWrite (?wb # ws')"
          "length iter = length ((key, value, handle) # recs) \<and> ok s \<and> ok hs \<longrightarrow>
             length (?wb # ws') = length ((key, value, handle) # recs)"
          by simp_all
        then show ?thesis by blast
      qed
    qed
  qed
qed


lemma LogAndApply_trace:
  "trace (snd (LogAndApply x vl e)) = trace vl @ [EvLogAndApply e]"
  "db (snd (LogAndApply x vl e)) = db vl"
  by (simp_all add: LogAndApply_def Let_def)

lemma emplace_keys: "fst ` set (emplace k v xs) = insert k (fst ` set xs)"
  by (auto simp: emplace_def map_of_eq_None_iff)

lemma foldl_emplace_keys:
  "fst ` set xs \<subseteq> fst ` set (foldl (\<lambda>m f. emplace (g f) f m) xs fs)"
proof (induction fs arbitrary: xs)
  case Nil
  then show ?case by simp
next
  case (Cons f fs)
  have "fst ` set xs \<subseteq> fst ` set (emplace (g f) f xs)"
    by (auto simp: emplace_keys)
  also have "\<dots> \<subseteq> fst ` set (foldl (\<lambda>m f. emplace (g f) f m) (emplace (g f) f xs) fs)"
    by (rule Cons.IH)
  finally show ?case by simp
qed

lemma LogAndApply_ro_files:
  "fst ` set (ro_files vl) \<subseteq> fst ` set (ro_files (snd (LogAndApply x vl e)))"
  using foldl_emplace_keys [of "ro_files vl" meta_number "added e"]
  by (simp add: LogAndApply_def Let_def)

lemma Rewrite_LSM_trace:
  assumes "Rewrite_LSM x vl gc f recs = Some (s, vl')"
  shows "\<exists>ws tl. trace vl' = trace vl @ map EvDBWrite ws @ tl \<and>
           (tl = [] \<or> tl = [EvDBSync] \<or>
            tl = [EvDBSync, EvLogAndApply
                    \<lparr>added = [f], deleted = [(number gc, LatestSequence (db vl'))]\<rparr>] \<and>
            ok (Sync_io x) \<and>
            (length (rewrites_gc gc) = length recs \<longrightarrow> length ws = length recs))"
proof (cases "Iterate x (shutdown vl) recs (rewrites_gc gc) [] OK (db vl) (trace vl)")
  case None
  with assms show ?thesis by (simp add: Rewrite_LSM_def)
next
  case (Some r)
  obtain hs d tr where r: "r = (hs, d, tr)" by (cases r)
  from Iterate_trace [OF Some [unfolded r]]
  obtain ws where ws: "tr = trace vl @ map EvDBWrite ws"
    "length (rewrites_gc gc) = length recs \<and> ok hs \<longrightarrow> length ws = length recs"
    by (auto simp: ok_def)
  let ?vl2 = "vl\<lparr>db := d, trace := tr @ [EvDBSync]\<rparr>"
  let ?e = "\<lparr>added = [f], deleted = [(number gc, LatestSequence d)]\<rparr>"
  let ?P = "\<lambda>ws tl. trace vl' = trace vl @ map EvDBWrite ws @ tl \<and>
           (tl = [] \<or> tl = [EvDBSync] \<or>
            tl = [EvDBSync, EvLogAndApply
                    \<lparr>added = [f], deleted = [(number gc, LatestSequence (db vl'))]\<rparr>] \<and>
            ok (Sync_io x) \<and>
            (length (rewrites_gc gc) = length recs \<longrightarrow> length ws = length recs))"
  from assms Some r
  have "vl' = vl\<lparr>db := d, trace := tr\<rparr> \<or> vl' = ?vl2 \<or>
        (ok hs \<and> ok (Sync_io x) \<and> vl' = snd (LogAndApply x ?vl2 ?e))"
    by (simp add: Rewrite_LSM_def Let_def split: if_splits)
  then consider (fail) "vl' = vl\<lparr>db := d, trace := tr\<rparr>"
    | (sync) "vl' = ?vl2"
    | (edit) "ok hs" "ok (Sync_io x)" "vl' = snd (LogAndApply x ?vl2 ?e)"
    by blast
  then show ?thesis
  proof cases
    case fail
    with ws(1) have "?P ws []" by simp
    then show ?thesis by (intro exI)
  next
    case sync
    with ws(1) have "?P ws [EvDBSync]" by simp
    then show ?thesis by (intro exI)
  next
    case edit
    from edit(3) have d: "db vl' = d" by (simp add: LogAndApply_trace)
    from edit(3) ws(1) have "trace vl' = trace vl @ map EvDBWrite ws @
        [EvDBSync, EvLogAndApply \<lparr>added = [f], deleted = [(number gc, LatestSequence d)]\<rparr>]"
      by (simp add: LogAndApply_trace)
    with d edit(1,2) ws(2)
    have "?P ws [EvDBSync, EvLogAndApply
                    \<lparr>added = [f], deleted = [(number gc, LatestSequence (db vl'))]\<rparr>]"
      by simp
    then show ?thesis by (intro exI)
  qed
qed

lemma Rewrite_LSM_ro_files:
  assumes "Rewrite_LSM x vl gc f recs = Some (s, vl')"
  shows "fst ` set (ro_files vl) \<subseteq> fst ` set (ro_files vl')"
proof (cases "Iterate x (shutdown vl) recs (rewrites_gc gc) [] OK (db vl) (trace vl)")
  case None
  with assms show ?thesis by (simp add: Rewrite_LSM_def)
next
  case (Some r)
  obtain hs d tr where r: "r = (hs, d, tr)" by (cases r)
  let ?vl2 = "vl\<lparr>db := d, trace := tr @ [EvDBSync]\<rparr>"
  let ?e = "\<lparr>added = [f], deleted = [(number gc, LatestSequence d)]\<rparr>"
  from assms Some r
  have "vl' = vl\<lparr>db := d, trace := tr\<rparr> \<or> vl' = ?vl2 \<or> vl' = snd (LogAndApply x ?vl2 ?e)"
    by (simp add: Rewrite_LSM_def Let_def split: if_splits)
  moreover have "fst ` set (ro_files vl) \<subseteq> fst ` set (ro_files (snd (LogAndApply x ?vl2 ?e)))"
    using LogAndApply_ro_files [of ?vl2 x ?e] by simp
  ultimately show ?thesis by auto
qed

lemma LogAndApply_synced: "synced (snd (LogAndApply x vl e)) = synced vl"
  by (simp add: LogAndApply_def Let_def)

lemma Rewrite_LSM_synced:
  assumes "Rewrite_LSM x vl gc f recs = Some (s, vl')"
  shows "synced vl' = synced vl"
proof (cases "Iterate x (shutdown vl) recs (rewrites_gc gc) [] OK (db vl) (trace vl)")
  case None
  with assms show ?thesis by (simp add: Rewrite_LSM_def)
next
  case (Some r)
  obtain hs d tr where r: "r = (hs, d, tr)" by (cases r)
  let ?vl2 = "vl\<lparr>db := d, trace := tr @ [EvDBSync]\<rparr>"
  let ?e = "\<lparr>added = [f], deleted = [(number gc, LatestSequence d)]\<rparr>"
  from assms Some r
  have "vl' = vl\<lparr>db := d, trace := tr\<rparr> \<or> vl' = ?vl2 \<or> vl' = snd (LogAndApply x ?vl2 ?e)"
    by (simp add: Rewrite_LSM_def Let_def split: if_splits)
  then show ?thesis
    by (auto simp: LogAndApply_synced)
qed

lemma discard_ratio_Some:
  "tot \<noteq> 0 \<Longrightarrow> discard_ratio discard tot = Some (discard * 100 div tot)"
  by (simp add: discard_ratio_def)

lemma Rewrite_below:
  assumes "total_size gc \<noteq> 0" "total_entries gc \<noteq> 0" "below_threshold (options vl) gc"
  shows "Rewrite x vl gc = Some (NonFatal, vl)"
  using assms by (simp add: Rewrite_def discard_ratio_Some below_threshold_def)

lemma Rewrite_all_discarded:
  assumes "total_size gc \<noteq> 0" "total_entries gc \<noteq> 0" "\<not> below_threshold (options vl) gc"
    "discard_entries gc = total_entries gc"
  shows "Rewrite x vl gc =
     Some (LogAndApply x vl \<lparr>added = [], deleted = [(number gc, LatestSequence (db vl))]\<rparr>)"
proof -
  from assms(3) have nb:
    "(unat (discard_size gc * 100 div total_size gc) < blob_gc_size_discard_threshold (options vl) \<and>
      unat (discard_entries gc * 100 div total_entries gc) < blob_gc_num_discard_threshold (options vl))
     = False"
    by (simp add: below_threshold_def)
  show ?thesis
    unfolding Rewrite_def discard_ratio_Some [OF assms(1)] discard_ratio_Some [OF assms(2)]
    by (simp only: nb option.case if_False) (simp only: assms(4) if_True simp_thms)
qed

lemma Rewrite_copy:
  assumes "total_size gc \<noteq> 0" "total_entries gc \<noteq> 0" "\<not> below_threshold (options vl) gc"
    "discard_entries gc \<noteq> total_entries gc"
  shows "Rewrite x vl gc =
     (let n = vlog_file_number vl + 1;
          recs = Finalize n 0 (value_batch gc);
          f = \<lparr>meta_number = n, file_size = FileSize recs\<rparr>;
          vl2 = vl\<lparr>vlog_file_number := n,
                   pending_outputs := insert n (pending_outputs vl),
                   vlog_files := (vlog_files vl)(n \<mapsto> value_batch gc),
                   synced := (if ok (FileSync_io x n) then (synced vl)(n := FileSize recs)
                              else synced vl),
                   ro_files := emplace n f (ro_files vl),
                   trace := trace vl @ [EvNewFile n, EvAddBatch n recs, EvFileSync n,
                     EvBuilderFinish n, EvFileClose n, EvRoFilesEmplace n]\<rparr>
      in if \<not> ok (NewAppendableRandomAccessFile x n)
         then Some (NewAppendableRandomAccessFile x n,
                    vl\<lparr>vlog_file_number := n, trace := trace vl @ [EvNewFile n]\<rparr>)
         else if SP_AfterValueRewrite x then Some (NewAppendableRandomAccessFile x n, vl2)
         else Rewrite_LSM x vl2 gc f recs)"
proof -
  from assms(3) have nb:
    "(unat (discard_size gc * 100 div total_size gc) < blob_gc_size_discard_threshold (options vl) \<and>
      unat (discard_entries gc * 100 div total_entries gc) < blob_gc_num_discard_threshold (options vl))
     = False"
    by (simp add: below_threshold_def)
  from assms(4) have ne: "(discard_entries gc = total_entries gc) = False"
    by simp
  show ?thesis
    unfolding Rewrite_def discard_ratio_Some [OF assms(1)] discard_ratio_Some [OF assms(2)]
    by (simp only: nb ne option.case if_False) (simp add: Let_def)
qed


lemma length_Finalize [simp]: "length (Finalize n off b) = length b"
  by (induction b arbitrary: off) auto

lemma Rewrite_proceeds:
  assumes tot: "total_size gc \<noteq> 0" "total_entries gc \<noteq> 0"
    and nb: "\<not> below_threshold (options vl) gc"
    and run: "Rewrite x vl gc = Some (s, vl')"
  shows "\<exists>e es. trace vl' = trace vl @ e # es \<and>
           (e = EvNewFile (vlog_file_number vl + 1) \<or> (\<exists>ed. e = EvLogAndApply ed))"
proof (cases "discard_entries gc = total_entries gc")
  case True
  from run Rewrite_all_discarded [OF tot nb True, of x]
  have "vl' = snd (LogAndApply x vl \<lparr>added = [], deleted = [(number gc, LatestSequence (db vl))]\<rparr>)"
    by simp
  then have "trace vl' = trace vl @
      EvLogAndApply \<lparr>added = [], deleted = [(number gc, LatestSequence (db vl))]\<rparr> # []"
    by (simp add: LogAndApply_trace)
  then show ?thesis by blast
next
  case False
  let ?n = "vlog_file_number vl + 1"
  let ?recs = "Finalize ?n 0 (value_batch gc)"
  let ?f = "\<lparr>meta_number = ?n, file_size = FileSize ?recs\<rparr>"
  let ?six = "[EvAddBatch ?n ?recs, EvFileSync ?n, EvBuilderFinish ?n, EvFileClose ?n,
               EvRoFilesEmplace ?n]"
  let ?vl2 = "vl\<lparr>vlog_file_number := ?n,
                   pending_outputs := insert ?n (pending_outputs vl),
                   vlog_files := (vlog_files vl)(?n \<mapsto> value_batch gc),
                   synced := (if ok (FileSync_io x ?n) then (synced vl)(?n := FileSize ?recs)
                              else synced vl),
                   ro_files := emplace ?n ?f (ro_files vl),
                   trace := trace vl @ EvNewFile ?n # ?six\<rparr>"
  from run Rewrite_copy [OF tot nb False, of x]
  have "vl' = vl\<lparr>vlog_file_number := ?n, trace := trace vl @ [EvNewFile ?n]\<rparr> \<or> vl' = ?vl2 \<or>
        Rewrite_LSM x ?vl2 gc ?f ?recs = Some (s, vl')"
    by (simp add: Let_def split: if_splits)
  then consider (nofile) "vl' = vl\<lparr>vlog_file_number := ?n, trace := trace vl @ [EvNewFile ?n]\<rparr>"
    | (sp) "vl' = ?vl2" | (lsm) "Rewrite_LSM x ?vl2 gc ?f ?recs = Some (s, vl')"
    by blast
  then show ?thesis
  proof cases
    case nofile
    then have "trace vl' = trace vl @ EvNewFile ?n # []" by simp
    then show ?thesis by blast
  next
    case sp
    then have "trace vl' = trace vl @ EvNewFile ?n # ?six" by simp
    then show ?thesis by blast
  next
    case lsm
    from Rewrite_LSM_trace [OF lsm] obtain ws tl where
      "trace vl' = trace ?vl2 @ map EvDBWrite ws @ tl" by blast
    then have "trace vl' = trace vl @ EvNewFile ?n # (?six @ map EvDBWrite ws @ tl)" by simp
    then show ?thesis by blast
  qed
qed

lemma percentage_exact:
  fixes d t :: "32 word"
  assumes "unat d * 100 < 2 ^ 32"
  shows "unat (d * 100 div t) = percentage d t"
proof -
  have "unat (d * 100) = unat d * 100"
    using assms by (simp add: unat_word_ariths)
  then show ?thesis
    by (simp add: unat_div percentage_def)
qed

text \<open>Beyond that bound the product wraps: all of 50 000 000 bytes dead counts as 14 percent.\<close>

lemma percentage_wraps: "discard_ratio 50000000 50000000 = Some 14"
  by (simp add: discard_ratio_def)

text \<open>
  For a collection with non-zero totals, \<open>Rewrite\<close> returns NonFatal without any call
  to the outside exactly when both percentages, as the code computes them, are below
  their thresholds, and the value log is then unchanged; otherwise its first call is the
  version edit of an all-dead file or the creation of the new file. As long as neither
  product wraps, the percentages are those of the specification.
\<close>

lemma Rewrite_threshold:
  assumes "total_size gc \<noteq> 0" "total_entries gc \<noteq> 0"
  shows "((\<exists>vl'. Rewrite x vl gc = Some (NonFatal, vl') \<and> trace vl' = trace vl)
            \<longleftrightarrow> below_threshold (options vl) gc) \<and>
         (below_threshold (options vl) gc \<longrightarrow> Rewrite x vl gc = Some (NonFatal, vl)) \<and>
         (\<not> below_threshold (options vl) gc \<longrightarrow>
            (\<forall>s vl'. Rewrite x vl gc = Some (s, vl') \<longrightarrow>
               (\<exists>e es. trace vl' = trace vl @ e # es \<and>
                  (e = EvNewFile (vlog_file_number vl + 1) \<or> (\<exists>ed. e = EvLogAndApply ed))))) \<and>
         (unat (discard_size gc) * 100 < 2 ^ 32 \<and> unat (discard_entries gc) * 100 < 2 ^ 32 \<longrightarrow>
            below_threshold (options vl) gc =
              (percentage (discard_size gc) (total_size gc)
                 < blob_gc_size_discard_threshold (options vl) \<and>
               percentage (discard_entries gc) (total_entries gc)
                 < blob_gc_num_discard_threshold (options vl)))"
proof (cases "below_threshold (options vl) gc")
  case True
  from Rewrite_below [OF assms True] have "Rewrite x vl gc = Some (NonFatal, vl)" .
  with True show ?thesis by (simp add: below_threshold_def percentage_exact)
next
  case False
  have p: "\<And>s vl'. Rewrite x vl gc = Some (s, vl') \<Longrightarrow>
      \<exists>e es. trace vl' = trace vl @ e # es \<and>
        (e = EvNewFile (vlog_file_number vl + 1) \<or> (\<exists>ed. e = EvLogAndApply ed))"
    by (rule Rewrite_proceeds [OF assms False])
  have "\<not> (\<exists>vl'. Rewrite x vl gc = Some (NonFatal, vl') \<and> trace vl' = trace vl)"
  proof
    assume "\<exists>vl'. Rewrite x vl gc = Some (NonFatal, vl') \<and> trace vl' = trace vl"
    then obtain vl' where "Rewrite x vl gc = Some (NonFatal, vl')" "trace vl' = trace vl"
      by blast
    with p [of NonFatal vl'] show False by auto
  qed
  moreover have "unat (discard_size gc) * 100 < 2 ^ 32 \<and> unat (discard_entries gc) * 100 < 2 ^ 32 \<longrightarrow>
            below_threshold (options vl) gc =
              (percentage (discard_size gc) (total_size gc)
                 < blob_gc_size_discard_threshold (options vl) \<and>
               percentage (discard_entries gc) (total_entries gc)
                 < blob_gc_num_discard_threshold (options vl))"
    by (simp add: below_threshold_def percentage_exact)
  ultimately show ?thesis using False p by blast
qed

lemma length_big_value: "length big_value = 49999993"
  by (simp only: big_value_def length_replicate)

lemma collect_big:
  "Collect_gc std_ext (vl_big\<lparr>gc_pointer := 2\<rparr>) (GarbageCollection_new 1) = (OK, gc_big)"
  by (simp add: run_defs codec_defs std_ext_def vl_big_def vl0_def db_big_def gc_big_def
      length_big_value)

lemma rewrite_big:
  "Rewrite std_ext (vl_big\<lparr>gc_pointer := 2\<rparr>) gc_big = Some (NonFatal, vl_big\<lparr>gc_pointer := 2\<rparr>)"
  by (simp add: Rewrite_def discard_ratio_def gc_big_def vl_big_def vl0_def)

lemma run_big:
  "BackgroundGC std_ext 100 vl_big =
     Some (vl_big\<lparr>gc_pointer := 2, gc_last_run := 100, bg_error := NonFatal\<rparr>)"
proof -
  have "BackgroundGC_pick vl_big = Some (Some (GarbageCollection_new 1), vl_big\<lparr>gc_pointer := 2\<rparr>)"
    by (simp add: BackgroundGC_pick_def PickGC_def PickGC_loop.simps GarbageCollection_new_def
        vl_big_def vl0_def word_le_nat_alt word_less_nat_alt)
  moreover have "SP_AfterCollect std_ext = (\<lambda>d. d)"
    by (simp add: std_ext_def)
  ultimately show ?thesis
    by (simp add: BackgroundGC_def collect_big rewrite_big RecordBGError_def ok_def IsNonFatal_def)
qed

text \<open>
  C4 does not hold of the code: the product \<^verbatim>\<open>discard_size * 100\<close> is computed in
  \<^verbatim>\<open>uint32_t\<close> and wraps from 42 949 673 bytes on. On file 1 of \<open>vl_big\<close> \<open>Collect\<close>
  finds 50 000 000 of 50 000 018 bytes dead, 99 percent, which reaches the threshold of
  30; the code computes 14 percent, and with one of four entries dead \<open>Rewrite\<close>
  returns NonFatal and the run rewrites nothing.
\<close>

theorem C4_size_percentage_wraps:
  "Collect_gc std_ext (vl_big\<lparr>gc_pointer := 2\<rparr>) (GarbageCollection_new 1) = (OK, gc_big) \<and>
   percentage (discard_size gc_big) (total_size gc_big) = 99 \<and>
   blob_gc_size_discard_threshold (options vl_big) = 30 \<and>
   percentage (discard_entries gc_big) (total_entries gc_big) = 25 \<and>
   blob_gc_num_discard_threshold (options vl_big) = 30 \<and>
   discard_ratio (discard_size gc_big) (total_size gc_big) = Some 14 \<and>
   Rewrite std_ext (vl_big\<lparr>gc_pointer := 2\<rparr>) gc_big = Some (NonFatal, vl_big\<lparr>gc_pointer := 2\<rparr>) \<and>
   BackgroundGC std_ext 100 vl_big =
     Some (vl_big\<lparr>gc_pointer := 2, gc_last_run := 100, bg_error := NonFatal\<rparr>)"
proof -
  have "percentage (discard_size gc_big) (total_size gc_big) = 99"
    "percentage (discard_entries gc_big) (total_entries gc_big) = 25"
    "discard_ratio (discard_size gc_big) (total_size gc_big) = Some 14"
    by (simp_all add: percentage_def discard_ratio_def gc_big_def)
  moreover have "blob_gc_size_discard_threshold (options vl_big) = 30"
    "blob_gc_num_discard_threshold (options vl_big) = 30"
    by (simp_all add: vl_big_def vl0_def)
  ultimately show ?thesis
    using collect_big rewrite_big run_big by simp
qed


text \<open>
  The order of the calls: in every execution of \<open>Rewrite\<close> that reaches the copy phase
  (thresholds reached, not all dead, the new file \<open>n\<close> created), the batch is added to
  file \<open>n\<close>, \<^verbatim>\<open>Sync()\<close>, \<^verbatim>\<open>Finish()\<close> and \<^verbatim>\<open>Close()\<close> are called and \<open>n\<close> is put
  into \<open>ro_files\<close>; only then come the LSM writes; the version edit, which adds \<open>n\<close>
  with its size and deletes the old file at the latest sequence, comes last, and only
  after every rewrite of the collection was written and the LSM sync returned OK. What
  is durable of file \<open>n\<close> afterwards is decided by the status of \<^verbatim>\<open>Sync()\<close> alone, which
  no branch of the code reads.
\<close>

lemma Rewrite_order:
  assumes tot: "total_size gc \<noteq> 0" "total_entries gc \<noteq> 0"
    and nb: "\<not> below_threshold (options vl) gc"
    and live: "discard_entries gc \<noteq> total_entries gc"
    and created: "ok (NewAppendableRandomAccessFile x (vlog_file_number vl + 1))"
    and wf: "length (rewrites_gc gc) = length (value_batch gc)"
    and run: "Rewrite x vl gc = Some (s, vl')"
  shows "let n = vlog_file_number vl + 1;
             recs = Finalize n 0 (value_batch gc)
         in n \<in> fst ` set (ro_files vl') \<and>
            synced vl' n = (if ok (FileSync_io x n) then FileSize recs else synced vl n) \<and>
            (\<exists>ws tl. trace vl' = trace vl @
                 [EvNewFile n, EvAddBatch n recs, EvFileSync n, EvBuilderFinish n,
                  EvFileClose n, EvRoFilesEmplace n] @ map EvDBWrite ws @ tl \<and>
               (tl = [] \<or> tl = [EvDBSync] \<or>
                tl = [EvDBSync, EvLogAndApply
                        \<lparr>added = [\<lparr>meta_number = n, file_size = FileSize recs\<rparr>],
                         deleted = [(number gc, LatestSequence (db vl'))]\<rparr>] \<and>
                ok (Sync_io x) \<and> length ws = length (rewrites_gc gc)))"
proof -
  let ?n = "vlog_file_number vl + 1"
  let ?recs = "Finalize ?n 0 (value_batch gc)"
  let ?f = "\<lparr>meta_number = ?n, file_size = FileSize ?recs\<rparr>"
  let ?head = "[EvNewFile ?n, EvAddBatch ?n ?recs, EvFileSync ?n, EvBuilderFinish ?n,
                EvFileClose ?n, EvRoFilesEmplace ?n]"
  let ?vl2 = "vl\<lparr>vlog_file_number := ?n,
                   pending_outputs := insert ?n (pending_outputs vl),
                   vlog_files := (vlog_files vl)(?n \<mapsto> value_batch gc),
                   synced := (if ok (FileSync_io x ?n) then (synced vl)(?n := FileSize ?recs)
                              else synced vl),
                   ro_files := emplace ?n ?f (ro_files vl),
                   trace := trace vl @ ?head\<rparr>"
  let ?P = "\<lambda>ws tl. trace vl' = trace vl @ ?head @ map EvDBWrite ws @ tl \<and>
               (tl = [] \<or> tl = [EvDBSync] \<or>
                tl = [EvDBSync, EvLogAndApply
                        \<lparr>added = [?f], deleted = [(number gc, LatestSequence (db vl'))]\<rparr>] \<and>
                ok (Sync_io x) \<and> length ws = length (rewrites_gc gc))"
  let ?S = "\<lambda>v. synced v ?n = (if ok (FileSync_io x ?n) then FileSize ?recs else synced vl ?n)"
  have key2: "?n \<in> fst ` set (ro_files ?vl2)"
    by (simp add: emplace_keys)
  have syn2: "?S ?vl2"
    by simp
  from run created Rewrite_copy [OF tot nb live, of x]
  have "vl' = ?vl2 \<or> Rewrite_LSM x ?vl2 gc ?f ?recs = Some (s, vl')"
    by (simp add: Let_def split: if_splits)
  then consider (sp) "vl' = ?vl2" | (lsm) "Rewrite_LSM x ?vl2 gc ?f ?recs = Some (s, vl')"
    by blast
  then have "?n \<in> fst ` set (ro_files vl') \<and> ?S vl' \<and> (\<exists>ws tl. ?P ws tl)"
  proof cases
    case sp
    then have "?P [] []" by simp
    then have "\<exists>ws tl. ?P ws tl" by (intro exI)
    with sp key2 syn2 show ?thesis by (simp only:)
  next
    case lsm
    from Rewrite_LSM_trace [OF lsm] obtain ws tl where t:
      "trace vl' = trace ?vl2 @ map EvDBWrite ws @ tl"
      "tl = [] \<or> tl = [EvDBSync] \<or>
       tl = [EvDBSync, EvLogAndApply
               \<lparr>added = [?f], deleted = [(number gc, LatestSequence (db vl'))]\<rparr>] \<and>
       ok (Sync_io x) \<and>
       (length (rewrites_gc gc) = length ?recs \<longrightarrow> length ws = length ?recs)"
      by blast
    from t wf have "?P ws tl" by auto
    then have "\<exists>ws tl. ?P ws tl" by (intro exI)
    moreover from Rewrite_LSM_ro_files [OF lsm] key2
    have "?n \<in> fst ` set (ro_files vl')" by blast
    moreover from Rewrite_LSM_synced [OF lsm] syn2
    have "?S vl'" by (simp only:)
    ultimately show ?thesis by simp
  qed
  then show ?thesis by (simp only: Let_def)
qed


lemma run_unsynced:
  "BackgroundGC (std_ext\<lparr>FileSync_io := (\<lambda>n. IOError)\<rparr>) 100 vl0 = Some vl0_unsynced"
  by (simp add: run_defs codec_defs example_defs vl0_done_def vl0_unsynced_def)

text \<open>
  C2 does not hold of the code: the calls are made in the order the claim gives, but
  the status of \<^verbatim>\<open>file->Sync()\<close> is dropped. In an environment where that sync fails,
  the run on \<open>vl0\<close> goes on as if it had succeeded: it writes for \<open>k1\<close> a handle into
  file 3 to the LSM, applies the version edit and records OK, while no byte of file 3 is
  durable. Where the sync succeeds the same handle references durable bytes.
\<close>

theorem C2_handle_to_unsynced_bytes:
  "BackgroundGC (std_ext\<lparr>FileSync_io := (\<lambda>n. IOError)\<rparr>) 100 vl0 = Some vl0_unsynced \<and>
   bg_error vl0_unsynced = OK \<and>
   trace vl0_unsynced =
     [EvNewFile 3, EvAddBatch 3 [(''k1'', ''v1'', \<lparr>table = 3, offset = 0, size_h = 6\<rparr>)],
      EvFileSync 3, EvBuilderFinish 3, EvFileClose 3, EvRoFilesEmplace 3,
      EvDBWrite [(kTypeValueHandle, ''k1'',
        handle_EncodeTo \<lparr>table = 3, offset = 0, size_h = 6\<rparr> [])],
      EvDBSync,
      EvLogAndApply \<lparr>added = [\<lparr>meta_number = 3, file_size = 6\<rparr>], deleted = [(1, 4)]\<rparr>] \<and>
   entries (db vl0_unsynced) ''k1'' =
     Present kTypeValueHandle (handle_EncodeTo \<lparr>table = 3, offset = 0, size_h = 6\<rparr> []) \<and>
   handle_DecodeFrom (handle_EncodeTo \<lparr>table = 3, offset = 0, size_h = 6\<rparr> []) =
     \<lparr>table = 3, offset = 0, size_h = 6\<rparr> \<and>
   synced vl0_unsynced 3 = 0 \<and>
   \<not> handle_durable vl0_unsynced \<lparr>table = 3, offset = 0, size_h = 6\<rparr> \<and>
   BackgroundGC std_ext 100 vl0 = Some vl0_done \<and>
   handle_durable vl0_done \<lparr>table = 3, offset = 0, size_h = 6\<rparr>"
proof -
  have "bg_error vl0_unsynced = OK" "synced vl0_unsynced 3 = 0"
    "trace vl0_unsynced =
     [EvNewFile 3, EvAddBatch 3 [(''k1'', ''v1'', \<lparr>table = 3, offset = 0, size_h = 6\<rparr>)],
      EvFileSync 3, EvBuilderFinish 3, EvFileClose 3, EvRoFilesEmplace 3,
      EvDBWrite [(kTypeValueHandle, ''k1'',
        handle_EncodeTo \<lparr>table = 3, offset = 0, size_h = 6\<rparr> [])],
      EvDBSync,
      EvLogAndApply \<lparr>added = [\<lparr>meta_number = 3, file_size = 6\<rparr>], deleted = [(1, 4)]\<rparr>]"
    "entries (db vl0_unsynced) ''k1'' =
     Present kTypeValueHandle (handle_EncodeTo \<lparr>table = 3, offset = 0, size_h = 6\<rparr> [])"
    by (simp_all add: vl0_unsynced_def vl0_done_def vl0_def)
  moreover have "handle_DecodeFrom (handle_EncodeTo \<lparr>table = 3, offset = 0, size_h = 6\<rparr> []) =
     \<lparr>table = 3, offset = 0, size_h = 6\<rparr>"
    by (simp add: codec_defs)
  moreover have "\<not> handle_durable vl0_unsynced \<lparr>table = 3, offset = 0, size_h = 6\<rparr>"
    "handle_durable vl0_done \<lparr>table = 3, offset = 0, size_h = 6\<rparr>"
    by (simp_all add: handle_durable_def vl0_unsynced_def vl0_done_def vl0_def)
  ultimately show ?thesis
    using run_unsynced run_done by simp
qed


section \<open>Collect: which records are dead\<close>

lemma collected_Nil [simp]: "collected x d [] gc = gc"
  by (simp add: collected_def scanned_def)

lemma collected_failed:
  "lookup_failed d r \<Longrightarrow> collected x d (r # rest) gc = gc"
  by (simp add: collected_def scanned_def)

lemma collected_dead:
  "\<not> lookup_failed d r \<Longrightarrow> is_dead x d r \<Longrightarrow>
   collected x d (r # rest) gc =
     collected x d rest
       (gc\<lparr>total_entries := total_entries gc + 1,
           total_size := total_size gc + size_h (snd (snd r)),
           discard_entries := discard_entries gc + 1,
           discard_size := discard_size gc + size_h (snd (snd r))\<rparr>)"
  by (simp add: collected_def scanned_def ac_simps)

lemma collected_live:
  "\<not> lookup_failed d r \<Longrightarrow> \<not> is_dead x d r \<Longrightarrow>
   collected x d (r # rest) gc =
     collected x d rest
       (gc\<lparr>total_entries := total_entries gc + 1,
           total_size := total_size gc + size_h (snd (snd r)),
           value_batch := value_batch gc @ [(fst r, fst (snd r))],
           rewrites_gc := rewrites_gc gc @ [([], \<lparr>key_cb = fst r, handle_cb = snd (snd r)\<rparr>)]\<rparr>)"
  by (simp add: collected_def scanned_def ac_simps)

lemma Collect_loop_collected:
  "snd (Collect_loop x d recs s enc vt h gc) = collected x d recs gc"
proof (induction recs arbitrary: s enc vt h gc)
  case Nil
  show ?case by simp
next
  case (Cons r rest)
  obtain key "value" current where r: "r = (key, value, current)" by (cases r)
  show ?case
  proof (cases "entries d key")
    case Absent
    then have "\<not> lookup_failed d r" "is_dead x d r"
      by (simp_all add: lookup_failed_def is_dead_def r)
    from collected_dead [OF this, of rest gc] Absent Cons.IH show ?thesis
      by (simp add: r DBImpl_Get_def ok_def IsNotFound_def Let_def)
  next
    case (Present t v)
    then have nf: "\<not> lookup_failed d r"
      by (simp add: lookup_failed_def r)
    show ?thesis
    proof (cases "is_dead x d r")
      case True
      from collected_dead [OF nf True, of rest gc] Present True Cons.IH show ?thesis
        by (auto simp: r DBImpl_Get_def ok_def IsNotFound_def Let_def is_dead_def)
    next
      case False
      from collected_live [OF nf False, of rest gc] Present False Cons.IH show ?thesis
        by (auto simp: r DBImpl_Get_def ok_def IsNotFound_def Let_def is_dead_def)
    qed
  next
    case Corrupt
    then have "lookup_failed d r" by (simp add: lookup_failed_def r)
    from collected_failed [OF this, of x rest gc] Corrupt show ?thesis
      by (simp add: r DBImpl_Get_def ok_def IsNotFound_def)
  next
    case Unreadable
    then have "lookup_failed d r" by (simp add: lookup_failed_def r)
    from collected_failed [OF this, of x rest gc] Unreadable show ?thesis
      by (simp add: r DBImpl_Get_def ok_def IsNotFound_def)
  qed
qed


text \<open>
  The status \<open>Collect\<close> returns is that of its last lookup. When the last record of
  the file belongs to a deleted key it is NotFound, which \<open>BackgroundGC\<close> takes for a
  fatal error and records.
\<close>

lemma Collect_returns_last_status:
  "fst (Collect_gc std_ext
          (vl0\<lparr>vlog_files := (\<lambda>n. None)(1 \<mapsto> [(''k1'', ''v1''), (''k2'', ''v2'')])\<rparr>)
          (GarbageCollection_new 1)) = NotFound \<and>
   map_option bg_error (BackgroundGC std_ext 100
          (vl0\<lparr>vlog_files := (\<lambda>n. None)(1 \<mapsto> [(''k1'', ''v1''), (''k2'', ''v2'')])\<rparr>))
     = Some NotFound"
  by (simp add: run_defs codec_defs example_defs)


text \<open>
  C3: when \<open>Collect\<close> opens the candidate file, every record it scans is counted in
  \<open>total_entries\<close> and \<open>total_size\<close>; it is counted as discarded exactly when it is
  dead (lookup NotFound, or an entry that is not a Handle, or a Handle that decodes to
  another handle than the iterator's); every other scanned record is appended to the
  value batch and paired with a callback that carries its key and its current handle.
  The scan ends before a record whose lookup fails with another status.
\<close>

theorem C3_collect_classifies:
  assumes "number gc < CurrentFileNumber vl" "number gc \<noteq> 0"
    and "NewVLogFileIterator vl (number gc) = Some recs"
  shows "snd (Collect_gc x vl gc) =
     gc\<lparr>total_entries := total_entries gc + of_nat (length (scanned (db vl) recs)),
        total_size := total_size gc
           + sum_list (map (\<lambda>r. size_h (snd (snd r))) (scanned (db vl) recs)),
        discard_entries := discard_entries gc
           + of_nat (length (filter (is_dead x (db vl)) (scanned (db vl) recs))),
        discard_size := discard_size gc
           + sum_list (map (\<lambda>r. size_h (snd (snd r)))
               (filter (is_dead x (db vl)) (scanned (db vl) recs))),
        value_batch := value_batch gc
           @ map (\<lambda>r. (fst r, fst (snd r)))
               (filter (\<lambda>r. \<not> is_dead x (db vl) r) (scanned (db vl) recs)),
        rewrites_gc := rewrites_gc gc
           @ map (\<lambda>r. ([], \<lparr>key_cb = fst r, handle_cb = snd (snd r)\<rparr>))
               (filter (\<lambda>r. \<not> is_dead x (db vl) r) (scanned (db vl) recs))\<rparr>"
proof -
  from assms(1) have "\<not> CurrentFileNumber vl \<le> number gc" by simp
  with assms(2,3) have "Collect_gc x vl gc =
      Collect_loop x (db vl) recs OK [] (valueType0 x) (ValueHandle0 x) gc"
    by (simp add: Collect_gc_def)
  then show ?thesis
    by (simp add: Collect_loop_collected collected_def)
qed

theorem C3_collect_classifies_witness:
  "number (GarbageCollection_new 1) < CurrentFileNumber vl0 \<and>
   number (GarbageCollection_new 1) \<noteq> 0 \<and>
   NewVLogFileIterator vl0 (number (GarbageCollection_new 1)) =
     Some [(''k2'', ''v2'', \<lparr>table = 1, offset = 0, size_h = 6\<rparr>), (''k1'', ''v1'', h1)] \<and>
   is_dead std_ext (db vl0) (''k2'', ''v2'', \<lparr>table = 1, offset = 0, size_h = 6\<rparr>) \<and>
   \<not> is_dead std_ext (db vl0) (''k1'', ''v1'', h1) \<and>
   snd (Collect_gc std_ext vl0 (GarbageCollection_new 1)) =
     (GarbageCollection_new 1)
       \<lparr>total_entries := 2, total_size := 12, discard_entries := 1, discard_size := 6,
        value_batch := [(''k1'', ''v1'')], rewrites_gc := [([], cb1)]\<rparr>"
proof -
  let ?r2 = "(''k2'', ''v2'', \<lparr>table = 1, offset = 0, size_h = 6\<rparr>)"
  let ?r1 = "(''k1'', ''v1'', h1)"
  have a: "number (GarbageCollection_new 1) < CurrentFileNumber vl0"
    by (simp add: GarbageCollection_new_def CurrentFileNumber_def vl0_def word_less_nat_alt)
  have b: "number (GarbageCollection_new 1) \<noteq> 0"
    by (simp add: GarbageCollection_new_def)
  have c: "NewVLogFileIterator vl0 (number (GarbageCollection_new 1)) = Some [?r2, ?r1]"
    by (simp add: NewVLogFileIterator_def GarbageCollection_new_def vl0_def record_size_def h1_def)
  have d2: "is_dead std_ext (db vl0) ?r2"
    by (simp add: is_dead_def vl0_def db0_def)
  have d1: "\<not> is_dead std_ext (db vl0) ?r1"
    by (simp add: is_dead_def vl0_def db0_def std_ext_def)
  have sc: "scanned (db vl0) [?r2, ?r1] = [?r2, ?r1]"
    by (simp add: scanned_def lookup_failed_def vl0_def db0_def)
  have sz: "size_h h1 = 6" by (simp add: h1_def)
  from C3_collect_classifies [OF a b c, of std_ext]
  have "snd (Collect_gc std_ext vl0 (GarbageCollection_new 1)) =
     (GarbageCollection_new 1)
       \<lparr>total_entries := 2, total_size := 12, discard_entries := 1, discard_size := 6,
        value_batch := [(''k1'', ''v1'')], rewrites_gc := [([], cb1)]\<rparr>"
    by (simp add: sc d1 d2 sz GarbageCollection_new_def cb1_def)
  with a b c d1 d2 show ?thesis by blast
qed


section \<open>The recorded status, scheduling, rejected files\<close>

lemma bg_error_out:
  "(vl\<lparr>bg_error := e\<rparr>)\<lparr>db := d\<rparr> = (vl\<lparr>db := d\<rparr>)\<lparr>bg_error := e\<rparr>"
  "(vl\<lparr>bg_error := e\<rparr>)\<lparr>trace := t\<rparr> = (vl\<lparr>trace := t\<rparr>)\<lparr>bg_error := e\<rparr>"
  "(vl\<lparr>bg_error := e\<rparr>)\<lparr>vlog_file_number := n\<rparr> = (vl\<lparr>vlog_file_number := n\<rparr>)\<lparr>bg_error := e\<rparr>"
  "(vl\<lparr>bg_error := e\<rparr>)\<lparr>pending_outputs := p\<rparr> = (vl\<lparr>pending_outputs := p\<rparr>)\<lparr>bg_error := e\<rparr>"
  "(vl\<lparr>bg_error := e\<rparr>)\<lparr>vlog_files := fs\<rparr> = (vl\<lparr>vlog_files := fs\<rparr>)\<lparr>bg_error := e\<rparr>"
  "(vl\<lparr>bg_error := e\<rparr>)\<lparr>synced := sy\<rparr> = (vl\<lparr>synced := sy\<rparr>)\<lparr>bg_error := e\<rparr>"
  "(vl\<lparr>bg_error := e\<rparr>)\<lparr>ro_files := r\<rparr> = (vl\<lparr>ro_files := r\<rparr>)\<lparr>bg_error := e\<rparr>"
  "(vl\<lparr>bg_error := e\<rparr>)\<lparr>obsolete_files := b\<rparr> = (vl\<lparr>obsolete_files := b\<rparr>)\<lparr>bg_error := e\<rparr>"
  "(vl\<lparr>bg_error := e\<rparr>)\<lparr>gc_pointer := g\<rparr> = (vl\<lparr>gc_pointer := g\<rparr>)\<lparr>bg_error := e\<rparr>"
  "(vl\<lparr>bg_error := e\<rparr>)\<lparr>manual_gc := m\<rparr> = (vl\<lparr>manual_gc := m\<rparr>)\<lparr>bg_error := e\<rparr>"
  by simp_all

lemma LogAndApply_bg_error:
  "LogAndApply x (vl\<lparr>bg_error := e\<rparr>) ed =
     (fst (LogAndApply x vl ed), (snd (LogAndApply x vl ed))\<lparr>bg_error := e\<rparr>)"
  by (simp add: LogAndApply_def Let_def)

lemma Rewrite_LSM_bg_error:
  "Rewrite_LSM x (vl\<lparr>bg_error := e\<rparr>) gc f recs =
     map_option (\<lambda>r. (fst r, (snd r)\<lparr>bg_error := e\<rparr>)) (Rewrite_LSM x vl gc f recs)"
  by (simp add: Rewrite_LSM_def Let_def bg_error_out LogAndApply_bg_error
      split: option.splits prod.splits)

lemma Rewrite_bg_error:
  "Rewrite x (vl\<lparr>bg_error := e\<rparr>) gc =
     map_option (\<lambda>r. (fst r, (snd r)\<lparr>bg_error := e\<rparr>)) (Rewrite x vl gc)"
  by (simp add: Rewrite_def Let_def bg_error_out LogAndApply_bg_error Rewrite_LSM_bg_error
      split: option.splits)

lemma Collect_gc_bg_error: "Collect_gc x (vl\<lparr>bg_error := e\<rparr>) gc = Collect_gc x vl gc"
  by (simp add: Collect_gc_def CurrentFileNumber_def NewVLogFileIterator_def split: option.splits)

lemma BackgroundGC_pick_bg_error:
  "BackgroundGC_pick (vl\<lparr>bg_error := e\<rparr>) =
     map_option (\<lambda>r. (fst r, (snd r)\<lparr>bg_error := e\<rparr>)) (BackgroundGC_pick vl)"
  by (simp add: BackgroundGC_pick_def PickGC_def bg_error_out option.map_comp comp_def)


lemma BackgroundGC_bg_error:
  "map_option bg_error (BackgroundGC x now vl) =
     (case BackgroundGC_pick vl of
        None \<Rightarrow> None
      | Some (None, vl1) \<Rightarrow> Some NonFatal
      | Some (Some gc, vl1) \<Rightarrow>
          (case Collect_gc x vl1 gc of
             (s, g1) \<Rightarrow>
               if \<not> ok s \<and> \<not> IsNonFatal s then Some s
               else map_option fst (Rewrite x (vl1\<lparr>db := SP_AfterCollect x (db vl1)\<rparr>) g1)))"
  by (simp add: BackgroundGC_def RecordBGError_def
      split: option.splits prod.splits)

text \<open>
  C10: the status a run records does not depend on the status stored before; it is
  NonFatal after an empty pick, the status of \<open>Collect\<close> when that is fatal, and
  otherwise the status \<open>Rewrite\<close> returns, which is NonFatal when the collection is
  below the thresholds. So a later successful run replaces an earlier NonFatal.
\<close>

theorem C10_bg_error_is_last_status:
  "map_option bg_error (BackgroundGC x now (vl\<lparr>bg_error := e\<rparr>)) =
     map_option bg_error (BackgroundGC x now vl) \<and>
   map_option bg_error (BackgroundGC x now vl) =
     (case BackgroundGC_pick vl of
        None \<Rightarrow> None
      | Some (None, vl1) \<Rightarrow> Some NonFatal
      | Some (Some gc, vl1) \<Rightarrow>
          (case Collect_gc x vl1 gc of
             (s, g1) \<Rightarrow>
               if \<not> ok s \<and> \<not> IsNonFatal s then Some s
               else map_option fst (Rewrite x (vl1\<lparr>db := SP_AfterCollect x (db vl1)\<rparr>) g1))) \<and>
   (\<forall>gc vl1 s g1.
      BackgroundGC_pick vl = Some (Some gc, vl1) \<and> Collect_gc x vl1 gc = (s, g1) \<and>
      (ok s \<or> IsNonFatal s) \<and> total_size g1 \<noteq> 0 \<and> total_entries g1 \<noteq> 0 \<and>
      below_threshold (options vl1) g1 \<longrightarrow>
      map_option bg_error (BackgroundGC x now vl) = Some NonFatal)"
proof (intro conjI allI impI)
  show "map_option bg_error (BackgroundGC x now (vl\<lparr>bg_error := e\<rparr>)) =
     map_option bg_error (BackgroundGC x now vl)"
    unfolding BackgroundGC_bg_error
    by (simp add: BackgroundGC_pick_bg_error Collect_gc_bg_error bg_error_out Rewrite_bg_error
        option.map_comp comp_def split: option.splits prod.splits)
next
  show "map_option bg_error (BackgroundGC x now vl) =
     (case BackgroundGC_pick vl of
        None \<Rightarrow> None
      | Some (None, vl1) \<Rightarrow> Some NonFatal
      | Some (Some gc, vl1) \<Rightarrow>
          (case Collect_gc x vl1 gc of
             (s, g1) \<Rightarrow>
               if \<not> ok s \<and> \<not> IsNonFatal s then Some s
               else map_option fst (Rewrite x (vl1\<lparr>db := SP_AfterCollect x (db vl1)\<rparr>) g1)))"
    by (rule BackgroundGC_bg_error)
next
  fix gc vl1 s g1
  assume a: "BackgroundGC_pick vl = Some (Some gc, vl1) \<and> Collect_gc x vl1 gc = (s, g1) \<and>
      (ok s \<or> IsNonFatal s) \<and> total_size g1 \<noteq> 0 \<and> total_entries g1 \<noteq> 0 \<and>
      below_threshold (options vl1) g1"
  let ?vl2 = "vl1\<lparr>db := SP_AfterCollect x (db vl1)\<rparr>"
  from a have "below_threshold (options ?vl2) g1" by simp
  with a have "Rewrite x ?vl2 g1 = Some (NonFatal, ?vl2)"
    by (intro Rewrite_below) simp_all
  with a show "map_option bg_error (BackgroundGC x now vl) = Some NonFatal"
    unfolding BackgroundGC_bg_error by auto
qed


theorem C10_bg_error_is_last_status_witness:
  "map_option bg_error (BackgroundGC std_ext 100 (vl0\<lparr>bg_error := NonFatal\<rparr>)) = Some OK \<and>
   BackgroundGC_pick vl0_hi = Some (Some (GarbageCollection_new 1), vl0_hi\<lparr>gc_pointer := 2\<rparr>) \<and>
   Collect_gc std_ext (vl0_hi\<lparr>gc_pointer := 2\<rparr>) (GarbageCollection_new 1) = (OK, gc1) \<and>
   (ok OK \<or> IsNonFatal OK) \<and> total_size gc1 \<noteq> 0 \<and> total_entries gc1 \<noteq> 0 \<and>
   below_threshold (options (vl0_hi\<lparr>gc_pointer := 2\<rparr>)) gc1 \<and>
   map_option bg_error (BackgroundGC std_ext 100 vl0_hi) = Some NonFatal"
proof -
  have base: "map_option bg_error (BackgroundGC std_ext 100 vl0) = Some OK"
    by (simp add: run_done) (simp add: vl0_done_def vl0_def)
  have "map_option bg_error (BackgroundGC std_ext 100 (vl0\<lparr>bg_error := NonFatal\<rparr>)) =
        map_option bg_error (BackgroundGC std_ext 100 vl0)"
    by (rule conjunct1
        [OF C10_bg_error_is_last_status [where x = std_ext and now = 100 and vl = vl0 and e = NonFatal]])
  with base
  have 1: "map_option bg_error (BackgroundGC std_ext 100 (vl0\<lparr>bg_error := NonFatal\<rparr>)) = Some OK"
    by (simp only:)
  have p: "BackgroundGC_pick vl0_hi = Some (Some (GarbageCollection_new 1), vl0_hi\<lparr>gc_pointer := 2\<rparr>)"
    by (simp add: BackgroundGC_pick_def PickGC_def PickGC_loop.simps GarbageCollection_new_def
        vl0_hi_def vl0_def word_le_nat_alt word_less_nat_alt)
  have c: "Collect_gc std_ext (vl0_hi\<lparr>gc_pointer := 2\<rparr>) (GarbageCollection_new 1) = (OK, gc1)"
    by (simp add: run_defs codec_defs example_defs gc1_def vl0_hi_def)
  have t: "ok OK \<or> IsNonFatal OK" "total_size gc1 \<noteq> 0" "total_entries gc1 \<noteq> 0"
    by (simp_all add: gc1_def ok_def)
  have b: "below_threshold (options (vl0_hi\<lparr>gc_pointer := 2\<rparr>)) gc1"
    by (simp add: below_threshold_def gc1_def vl0_hi_def vl0_def)
  from C10_bg_error_is_last_status [where x = std_ext and now = 100 and vl = vl0_hi and e = OK] p c t b
  have 2: "map_option bg_error (BackgroundGC std_ext 100 vl0_hi) = Some NonFatal"
    by blast
  from 1 2 p c t b show ?thesis by blast
qed

lemma duration_count_exact:
  assumes "0 \<le> now - t0" "now - t0 < 2 ^ 31"
  shows "duration_count now t0 = now - t0"
proof -
  have "signed_take_bit 31 (now - t0) = now - t0"
    using assms by (intro signed_take_bit_int_eq_self) simp_all
  moreover have "sint (word_of_int (now - t0) :: 32 word) = signed_take_bit 31 (now - t0)"
    by (subst sint_sbintrunc') simp
  ultimately show ?thesis
    by (simp only: duration_count_def)
qed

text \<open>
  From \<open>2^31\<close> seconds on the count wraps: after 3 000 000 000 seconds it is negative,
  and an automatic run is not scheduled however short the interval.
\<close>

lemma duration_count_wraps:
  "duration_count 3000000000 0 = - 1294967296 \<and>
   MaybeScheduleGC 3000000000 (vl0\<lparr>bg_garbage_collection := False\<rparr>) =
     vl0\<lparr>bg_garbage_collection := False\<rparr>"
  by (simp add: MaybeScheduleGC_def duration_count_def vl0_def ok_def)

text \<open>
  C8: with the shutdown flag set, or a stored background error that is neither OK nor
  NonFatal, \<open>MaybeScheduleGC\<close> schedules nothing and a woken \<open>BGCall\<close> runs no
  collection (it only clears the running flag). With the flag clear and the error OK or
  NonFatal, the scheduling attempt goes on to its usual decision: a task is scheduled
  exactly when a manual request is pending or the 32-bit count of the seconds since the
  last run exceeds the interval; a manual request is always scheduled, and while the
  elapsed time is less than \<open>2^31\<close> seconds the count is the elapsed time itself. A woken
  call runs \<open>BackgroundGC\<close>.
\<close>

theorem C8_fatal_error_or_shutdown_stops_gc:
  "(shutdown vl \<or> (\<not> ok (bg_error vl) \<and> \<not> IsNonFatal (bg_error vl)) \<longrightarrow>
      MaybeScheduleGC now vl = vl \<and>
      BGCall x now now' vl = Some (vl\<lparr>bg_garbage_collection := False\<rparr>)) \<and>
   (\<not> shutdown vl \<and> (ok (bg_error vl) \<or> IsNonFatal (bg_error vl)) \<longrightarrow>
      (\<not> bg_garbage_collection vl \<longrightarrow>
         MaybeScheduleGC now vl =
           (if manual_gc vl \<or> duration_count now (gc_last_run vl) > blob_gc_interval (options vl)
            then vl\<lparr>bg_garbage_collection := True, trace := trace vl @ [EvSchedule]\<rparr>
            else vl) \<and>
         (manual_gc vl \<longrightarrow>
            MaybeScheduleGC now vl =
              vl\<lparr>bg_garbage_collection := True, trace := trace vl @ [EvSchedule]\<rparr>) \<and>
         (0 \<le> now - gc_last_run vl \<and> now - gc_last_run vl < 2 ^ 31 \<longrightarrow>
            MaybeScheduleGC now vl =
              (if manual_gc vl \<or> now - gc_last_run vl > blob_gc_interval (options vl)
               then vl\<lparr>bg_garbage_collection := True, trace := trace vl @ [EvSchedule]\<rparr>
               else vl))) \<and>
      BGCall x now now' vl =
        map_option (\<lambda>vl1. MaybeScheduleGC now' (vl1\<lparr>bg_garbage_collection := False\<rparr>))
          (BackgroundGC x now vl))"
proof -
  have sched: "\<not> bg_garbage_collection vl \<Longrightarrow> \<not> shutdown vl \<Longrightarrow>
      ok (bg_error vl) \<or> IsNonFatal (bg_error vl) \<Longrightarrow>
      MaybeScheduleGC now vl =
        (if manual_gc vl \<or> duration_count now (gc_last_run vl) > blob_gc_interval (options vl)
         then vl\<lparr>bg_garbage_collection := True, trace := trace vl @ [EvSchedule]\<rparr>
         else vl)"
    by (auto simp: MaybeScheduleGC_def Let_def)
  have stop: "shutdown vl \<or> (\<not> ok (bg_error vl) \<and> \<not> IsNonFatal (bg_error vl)) \<Longrightarrow>
      MaybeScheduleGC now vl = vl \<and>
      BGCall x now now' vl = Some (vl\<lparr>bg_garbage_collection := False\<rparr>)"
    by (auto simp: MaybeScheduleGC_def BGCall_def)
  have run: "\<not> shutdown vl \<Longrightarrow> ok (bg_error vl) \<or> IsNonFatal (bg_error vl) \<Longrightarrow>
      BGCall x now now' vl =
        map_option (\<lambda>vl1. MaybeScheduleGC now' (vl1\<lparr>bg_garbage_collection := False\<rparr>))
          (BackgroundGC x now vl)"
    by (auto simp: BGCall_def)
  show ?thesis
    using sched stop run by (auto simp: duration_count_exact)
qed

theorem C8_fatal_error_or_shutdown_stops_gc_witness:
  "MaybeScheduleGC 1000 (vl0\<lparr>shutdown := True\<rparr>) = vl0\<lparr>shutdown := True\<rparr> \<and>
   BGCall std_ext 1000 1000 (vl0\<lparr>shutdown := True\<rparr>) =
     Some (vl0\<lparr>shutdown := True, bg_garbage_collection := False\<rparr>) \<and>
   MaybeScheduleGC 1000 (vl0\<lparr>bg_error := IOError\<rparr>) = vl0\<lparr>bg_error := IOError\<rparr> \<and>
   BGCall std_ext 1000 1000 (vl0\<lparr>bg_error := IOError\<rparr>) =
     Some (vl0\<lparr>bg_error := IOError, bg_garbage_collection := False\<rparr>) \<and>
   (0 :: int) \<le> 1000 - gc_last_run (vl0\<lparr>bg_error := NonFatal, bg_garbage_collection := False\<rparr>) \<and>
   1000 - gc_last_run (vl0\<lparr>bg_error := NonFatal, bg_garbage_collection := False\<rparr>) < 2 ^ 31 \<and>
   MaybeScheduleGC 1000 (vl0\<lparr>bg_error := NonFatal, bg_garbage_collection := False\<rparr>) =
     vl0\<lparr>bg_error := NonFatal, bg_garbage_collection := True, trace := [EvSchedule]\<rparr> \<and>
   MaybeScheduleGC 500 (vl0\<lparr>bg_error := NonFatal, bg_garbage_collection := False\<rparr>) =
     vl0\<lparr>bg_error := NonFatal, bg_garbage_collection := False\<rparr> \<and>
   MaybeScheduleGC 500
       (vl0\<lparr>bg_error := NonFatal, bg_garbage_collection := False, manual_gc := True\<rparr>) =
     vl0\<lparr>bg_error := NonFatal, bg_garbage_collection := True, manual_gc := True,
         trace := [EvSchedule]\<rparr>"
proof -
  have a: "shutdown (vl0\<lparr>shutdown := True\<rparr>)" by simp
  have b: "\<not> ok (bg_error (vl0\<lparr>bg_error := IOError\<rparr>)) \<and>
           \<not> IsNonFatal (bg_error (vl0\<lparr>bg_error := IOError\<rparr>))"
    by (simp add: ok_def IsNonFatal_def)
  let ?v = "vl0\<lparr>bg_error := NonFatal, bg_garbage_collection := False\<rparr>"
  let ?m = "vl0\<lparr>bg_error := NonFatal, bg_garbage_collection := False, manual_gc := True\<rparr>"
  have c: "\<not> shutdown ?v \<and> (ok (bg_error ?v) \<or> IsNonFatal (bg_error ?v))"
    "\<not> bg_garbage_collection ?v" "\<not> manual_gc ?v"
    "gc_last_run ?v = 0" "blob_gc_interval (options ?v) = 600" "trace ?v = []"
    by (simp_all add: vl0_def IsNonFatal_def)
  have m: "\<not> shutdown ?m \<and> (ok (bg_error ?m) \<or> IsNonFatal (bg_error ?m))"
    "\<not> bg_garbage_collection ?m" "manual_gc ?m" "trace ?m = []"
    by (simp_all add: vl0_def IsNonFatal_def)
  have r: "(0 :: int) \<le> 1000 - gc_last_run ?v" "1000 - gc_last_run ?v < 2 ^ 31"
    by (simp_all add: vl0_def)
  from C8_fatal_error_or_shutdown_stops_gc
    [where vl = "vl0\<lparr>shutdown := True\<rparr>" and now = 1000 and x = std_ext and now' = 1000] a
  have 1: "MaybeScheduleGC 1000 (vl0\<lparr>shutdown := True\<rparr>) = vl0\<lparr>shutdown := True\<rparr>"
    "BGCall std_ext 1000 1000 (vl0\<lparr>shutdown := True\<rparr>) =
       Some (vl0\<lparr>shutdown := True, bg_garbage_collection := False\<rparr>)"
    by simp_all
  from C8_fatal_error_or_shutdown_stops_gc
    [where vl = "vl0\<lparr>bg_error := IOError\<rparr>" and now = 1000 and x = std_ext and now' = 1000] b
  have 2: "MaybeScheduleGC 1000 (vl0\<lparr>bg_error := IOError\<rparr>) = vl0\<lparr>bg_error := IOError\<rparr>"
    "BGCall std_ext 1000 1000 (vl0\<lparr>bg_error := IOError\<rparr>) =
       Some (vl0\<lparr>bg_error := IOError, bg_garbage_collection := False\<rparr>)"
    by simp_all
  from C8_fatal_error_or_shutdown_stops_gc
    [where vl = ?v and now = 1000 and x = std_ext and now' = 1000] c
  have 3: "MaybeScheduleGC 1000 ?v =
     vl0\<lparr>bg_error := NonFatal, bg_garbage_collection := True, trace := [EvSchedule]\<rparr>"
    by (simp add: IsNonFatal_def ok_def duration_count_def)
  from C8_fatal_error_or_shutdown_stops_gc
    [where vl = ?v and now = 500 and x = std_ext and now' = 1000] c
  have 4: "MaybeScheduleGC 500 ?v = ?v"
    by (simp add: IsNonFatal_def ok_def duration_count_def)
  from C8_fatal_error_or_shutdown_stops_gc
    [where vl = ?m and now = 500 and x = std_ext and now' = 1000] m
  have 5: "MaybeScheduleGC 500 ?m =
     vl0\<lparr>bg_error := NonFatal, bg_garbage_collection := True, manual_gc := True,
         trace := [EvSchedule]\<rparr>"
    by (simp add: IsNonFatal_def ok_def)
  from 1 2 3 4 5 r show ?thesis by blast
qed

text \<open>
  C9: \<open>Collect\<close> returns NonFatal and leaves the collection as it was (nothing scanned)
  when the file number is 0, or at least the current file number, or no iterator opens;
  so the file with the current number is never collected, and \<open>PickGC\<close> never hands
  over a file that is not in \<open>ro_files\<close>, which the file being written is not.
\<close>

theorem C9_collect_rejects_invalid_file:
  "(number gc = 0 \<or> CurrentFileNumber vl \<le> number gc \<or>
      NewVLogFileIterator vl (number gc) = None \<longrightarrow>
      Collect_gc x vl gc = (NonFatal, gc)) \<and>
   Collect_gc x vl (gc\<lparr>number := CurrentFileNumber vl\<rparr>) =
     (NonFatal, gc\<lparr>number := CurrentFileNumber vl\<rparr>) \<and>
   (\<forall>n g a. PickGC vl n = Some (Some g) \<and> a \<notin> fst ` set (ro_files vl) \<longrightarrow> number g \<noteq> a)"
proof (intro conjI allI impI)
  assume "number gc = 0 \<or> CurrentFileNumber vl \<le> number gc \<or>
      NewVLogFileIterator vl (number gc) = None"
  then show "Collect_gc x vl gc = (NonFatal, gc)"
    by (auto simp: Collect_gc_def)
next
  show "Collect_gc x vl (gc\<lparr>number := CurrentFileNumber vl\<rparr>) =
     (NonFatal, gc\<lparr>number := CurrentFileNumber vl\<rparr>)"
    by (simp add: Collect_gc_def)
next
  fix n g a
  assume "PickGC vl n = Some (Some g) \<and> a \<notin> fst ` set (ro_files vl)"
  with PickGC_sound [of vl n g] show "number g \<noteq> a" by blast
qed

theorem C9_collect_rejects_invalid_file_witness:
  "Collect_gc std_ext vl0 (GarbageCollection_new 0) = (NonFatal, GarbageCollection_new 0) \<and>
   CurrentFileNumber vl0 = 2 \<and>
   Collect_gc std_ext vl0 (GarbageCollection_new 2) = (NonFatal, GarbageCollection_new 2) \<and>
   NewVLogFileIterator (vl0\<lparr>vlog_files := (\<lambda>n. None)\<rparr>) 1 = None \<and>
   Collect_gc std_ext (vl0\<lparr>vlog_files := (\<lambda>n. None)\<rparr>) (GarbageCollection_new 1) =
     (NonFatal, GarbageCollection_new 1) \<and>
   PickGC vl0 0 = Some (Some (GarbageCollection_new 1)) \<and> 2 \<notin> fst ` set (ro_files vl0) \<and>
   number (GarbageCollection_new 1) \<noteq> 2"
proof -
  have n: "number (GarbageCollection_new 0) = 0" "number (GarbageCollection_new 1) = 1"
    "number (GarbageCollection_new 2) = 2"
    by (simp_all add: GarbageCollection_new_def)
  have cur: "CurrentFileNumber vl0 = 2" by (simp add: CurrentFileNumber_def vl0_def)
  have it: "NewVLogFileIterator (vl0\<lparr>vlog_files := (\<lambda>n. None)\<rparr>) 1 = None"
    by (simp add: NewVLogFileIterator_def)
  have pk: "PickGC vl0 0 = Some (Some (GarbageCollection_new 1))"
    by (simp add: PickGC_def PickGC_loop.simps vl0_def word_le_nat_alt word_less_nat_alt)
  have ro: "2 \<notin> fst ` set (ro_files vl0)" by (simp add: vl0_def)
  from C9_collect_rejects_invalid_file [of "GarbageCollection_new 0" vl0 std_ext] n
  have 1: "Collect_gc std_ext vl0 (GarbageCollection_new 0) = (NonFatal, GarbageCollection_new 0)"
    by simp
  from C9_collect_rejects_invalid_file [of "GarbageCollection_new 2" vl0 std_ext] n cur
  have 2: "Collect_gc std_ext vl0 (GarbageCollection_new 2) = (NonFatal, GarbageCollection_new 2)"
    by simp
  from C9_collect_rejects_invalid_file
    [of "GarbageCollection_new 1" "vl0\<lparr>vlog_files := (\<lambda>n. None)\<rparr>" std_ext] n it
  have 3: "Collect_gc std_ext (vl0\<lparr>vlog_files := (\<lambda>n. None)\<rparr>) (GarbageCollection_new 1) =
     (NonFatal, GarbageCollection_new 1)"
    by simp
  from C9_collect_rejects_invalid_file [of "GarbageCollection_new 0" vl0 std_ext] pk ro
  have 4: "number (GarbageCollection_new 1) \<noteq> 2"
    by blast
  from 1 2 3 4 cur it pk ro show ?thesis by blast
qed


end
